theory Spec2Isabelle
  imports Main "HOL-Library.AList"
begin

section \<open>Release build and upload pipeline (src/tasks/buildAndUpload.ts, src/params.ts)\<close>

subsection \<open>Errors\<close>

text \<open>
  \<open>CliError\<close> and \<open>YargsError\<close> are the two error classes of params.ts. The other
  constructors stand for what the collaborators outside these two files signal
  (the spec's error taxonomy) and for a failing file-system call.
\<close>

datatype error =
    CliError string
  | YargsError string
  | ValidationError string
  | BuildError string
  | BuildTimeoutError string
  | UploadError string
  | FsError string
  | OtherError string

subsection \<open>params.ts: release files and archive naming\<close>

text \<open>
  An entry of \<open>releaseFiles\<close>. The \<open>regex\<close> property is read only by the asset lookup
  (getAssetPath), which is not part of these sources, and is left out. The property \<open>id\<close> is written \<open>id'\<close>.
\<close>

record releaseFile =
  required :: bool
  defaultName :: string
  id' :: string

definition releaseFiles_manifest :: releaseFile where
  "releaseFiles_manifest =
     \<lparr>required = True, defaultName = ''dappnode_package.json'', id' = ''manifest''\<rparr>"

definition releaseFiles_compose :: releaseFile where
  "releaseFiles_compose =
     \<lparr>required = True, defaultName = ''docker-compose.yml'', id' = ''compose''\<rparr>"

definition releaseFiles_avatar :: releaseFile where
  "releaseFiles_avatar =
     \<lparr>required = True, defaultName = ''avatar.png'', id' = ''avatar''\<rparr>"

definition releaseFiles_setupWizard :: releaseFile where
  "releaseFiles_setupWizard =
     \<lparr>required = False, defaultName = ''setup-wizard.json'', id' = ''setupWizard''\<rparr>"

definition releaseFiles_setupSchema :: releaseFile where
  "releaseFiles_setupSchema =
     \<lparr>required = False, defaultName = ''setup.schema.json'', id' = ''setupSchema''\<rparr>"

definition releaseFiles_setupTarget :: releaseFile where
  "releaseFiles_setupTarget =
     \<lparr>required = False, defaultName = ''setup-target.json'', id' = ''setupTarget''\<rparr>"

definition releaseFiles_setupUiJson :: releaseFile where
  "releaseFiles_setupUiJson =
     \<lparr>required = False, defaultName = ''setup-ui.json'', id' = ''setupUiJson''\<rparr>"

definition releaseFiles_disclaimer :: releaseFile where
  "releaseFiles_disclaimer =
     \<lparr>required = False, defaultName = ''disclaimer.md'', id' = ''disclaimer''\<rparr>"

definition releaseFiles_gettingStarted :: releaseFile where
  "releaseFiles_gettingStarted =
     \<lparr>required = False, defaultName = ''getting-started.md'', id' = ''gettingStarted''\<rparr>"

text \<open>\<open>arch.replace(/\//g, "-")\<close>: every slash becomes a dash.\<close>

definition getArchTag :: "string \<Rightarrow> string" where
  "getArchTag arch = map (\<lambda>c. if c = CHR ''/'' then CHR ''-'' else c) arch"

definition getImagePath :: "string \<Rightarrow> string \<Rightarrow> string \<Rightarrow> string" where
  "getImagePath nm ver arch = nm @ ''_'' @ ver @ ''_'' @ getArchTag arch @ ''.txz''"

definition getLegacyImagePath :: "string \<Rightarrow> string \<Rightarrow> string" where
  "getLegacyImagePath nm ver = nm @ ''_'' @ ver @ ''.tar.xz''"

subsection \<open>Node's \<open>path.join\<close> (POSIX)\<close>

text \<open>
  \<open>path.join\<close> glues its non-empty arguments with a slash and normalises the result:
  empty and \<open>.\<close> segments disappear, \<open>..\<close> removes the segment before it (above the
  start of a relative path it is kept, above the root it is dropped), a leading and a
  trailing slash survive, and an empty result is \<open>.\<close>.
\<close>

fun splitSep :: "string \<Rightarrow> string list" where
  "splitSep [] = [[]]"
| "splitSep (c # cs) =
     (if c = CHR ''/'' then [] # splitSep cs
      else (case splitSep cs of [] \<Rightarrow> [[c]] | s # ss \<Rightarrow> (c # s) # ss))"

fun joinSep :: "string list \<Rightarrow> string" where
  "joinSep [] = []"
| "joinSep [s] = s"
| "joinSep (s # t # ss) = s @ ''/'' @ joinSep (t # ss)"

text \<open>The stack \<open>stk\<close> holds the segments kept so far, the last one first.\<close>

fun normalizeSegments :: "bool \<Rightarrow> string list \<Rightarrow> string list \<Rightarrow> string list" where
  "normalizeSegments allowAboveRoot stk [] = rev stk"
| "normalizeSegments allowAboveRoot stk (seg # segs) =
     (if seg = [] \<or> seg = ''.'' then normalizeSegments allowAboveRoot stk segs
      else if seg = ''..'' then
        (if stk \<noteq> [] \<and> hd stk \<noteq> ''..'' then normalizeSegments allowAboveRoot (tl stk) segs
         else if allowAboveRoot then normalizeSegments allowAboveRoot (seg # stk) segs
         else normalizeSegments allowAboveRoot stk segs)
      else normalizeSegments allowAboveRoot (seg # stk) segs)"

definition isAbsolute :: "string \<Rightarrow> bool" where
  "isAbsolute p = (p \<noteq> [] \<and> hd p = CHR ''/'')"

definition normalize :: "string \<Rightarrow> string" where
  "normalize p =
     (if p = [] then ''.''
      else
        (let trailingSeparator = (last p = CHR ''/'');
             res = joinSep (normalizeSegments (\<not> isAbsolute p) [] (splitSep p))
         in if res = [] then
              (if isAbsolute p then ''/'' else if trailingSeparator then ''./'' else ''.'')
            else (if isAbsolute p then ''/'' else []) @ res
                 @ (if trailingSeparator then ''/'' else [])))"

definition path_join :: "string \<Rightarrow> string \<Rightarrow> string" where
  "path_join a b =
     (let joined = (if a = [] then b else if b = [] then a else a @ ''/'' @ b)
      in if joined = [] then ''.'' else normalize joined)"

subsection \<open>Manifest, options and the shared context\<close>

text \<open>
  The fields of the manifest that buildAndUpload reads or writes. An absent property is
  \<open>None\<close>. \<open>image'\<close> is the deprecated \<open>manifest.image\<close> object and \<open>avatar\<close> the deprecated
  \<open>manifest.avatar\<close> string.
\<close>

datatype manifestImage = ManifestImage string

record manifest =
  name :: string
  version :: string
  architectures :: "string list option"
  upstreamVersion :: "string option"
  image' :: "manifestImage option"
  avatar :: "string option"

text \<open>The argument object of buildAndUpload; \<open>skipSave\<close> and \<open>skipUpload\<close> are optional.\<close>

record options =
  buildDir :: string
  ipfsProvider :: string
  swarmProvider :: string
  userTimeout :: string
  uploadToSwarm :: bool
  skipSave :: "bool option"
  skipUpload :: "bool option"
  dir :: string

record listrContext =
  releaseHash :: "string option"
  releaseMultiHash :: "string option"

text \<open>
  JavaScript truthiness of an optional string and of an optional boolean: \<open>undefined\<close>,
  the empty string and \<open>false\<close> are falsy.
\<close>

definition truthy :: "string option \<Rightarrow> bool" where
  "truthy v = (case v of None \<Rightarrow> False | Some s \<Rightarrow> s \<noteq> [])"

definition truthyFlag :: "bool option \<Rightarrow> bool" where
  "truthyFlag v = (case v of None \<Rightarrow> False | Some b \<Rightarrow> b)"

text \<open>\<open>/[A-Z]/.test(name)\<close>: some character of the name is one of the 26 capitals.\<close>

definition isUpperAZ :: "char \<Rightarrow> bool" where
  "isUpperAZ c = (65 \<le> (of_char c :: nat) \<and> (of_char c :: nat) \<le> 90)"

definition hasUppercase :: "string \<Rightarrow> bool" where
  "hasUppercase s = list_ex isUpperAZ s"

subsection \<open>File system\<close>

text \<open>
  The file system is the list of its nodes, each under the path string the code passes
  to \<open>fs\<close>: a regular file with its content, or a directory that has been made. A
  directory is also there, without a node of its own, as soon as a node lies beneath it
  (\<open>ancestors\<close> gives the paths that a path lies beneath). Access rights and device
  errors are not part of it.
\<close>

type_synonym compose = string

datatype content = Data string | ManifestJson manifest | ComposeYml compose

datatype node = File content | Directory

type_synonym fileSystem = "(string \<times> node) list"

text \<open>The part of a path after its last slash.\<close>

definition entryName :: "string \<Rightarrow> string" where
  "entryName p = rev (takeWhile (\<lambda>c. c \<noteq> CHR ''/'') (rev p))"

text \<open>The directories that hold the path: what stands before each of its slashes.\<close>

definition ancestors :: "string \<Rightarrow> string list" where
  "ancestors p = map (\<lambda>i. take i p) (filter (\<lambda>i. p ! i = CHR ''/'') [0..<length p])"

definition isFile :: "fileSystem \<Rightarrow> string \<Rightarrow> bool" where
  "isFile fs p = (case map_of fs p of Some (File c) \<Rightarrow> True | _ \<Rightarrow> False)"

definition isDirectory :: "fileSystem \<Rightarrow> string \<Rightarrow> bool" where
  "isDirectory fs p =
     (map_of fs p = Some Directory \<or> list_ex (\<lambda>q. p \<in> set (ancestors q)) (map fst fs))"

definition existsSync :: "fileSystem \<Rightarrow> string \<Rightarrow> bool" where
  "existsSync fs p = (isFile fs p \<or> isDirectory fs p)"

text \<open>
  The path under which a directory given as \<open>d\<close> is known: \<open>d\<close> normalised, without the
  slash that may end it.
\<close>

definition resolveDir :: "string \<Rightarrow> string" where
  "resolveDir d =
     (let n = normalize d
      in if 1 < length n \<and> last n = CHR ''/'' then butlast n else n)"

text \<open>
  \<open>mkdirSync(d, { recursive: true })\<close> makes the directory and those above it. It is
  content with a directory that is there already, and throws when the path is a regular
  file (\<open>EEXIST\<close>), when a path above it is one (\<open>ENOTDIR\<close>), and for the empty path.
\<close>

definition mkdirSync :: "fileSystem \<Rightarrow> string \<Rightarrow> error + fileSystem" where
  "mkdirSync fs d =
     (if d = [] then Inl (FsError ''ENOENT'')
      else if isFile fs (resolveDir d) then Inl (FsError ''EEXIST'')
      else if list_ex (isFile fs) (ancestors (resolveDir d)) then Inl (FsError ''ENOTDIR'')
      else Inr (AList.update (resolveDir d) Directory fs))"

text \<open>
  \<open>readdirSync\<close> gives the names of what is directly inside the directory, files and
  sub-directories alike, never \<open>.\<close> or \<open>..\<close>: the bare names \<open>f\<close> for which the directory
  joined with \<open>f\<close> is a node or lies above one. The code calls it on a directory that
  \<open>mkdirSync\<close> has just made or found.
\<close>

definition readdirSync :: "fileSystem \<Rightarrow> string \<Rightarrow> string list" where
  "readdirSync fs d =
     remdups (map entryName
       (filter (\<lambda>p. entryName p \<noteq> [] \<and> entryName p \<noteq> ''.'' \<and> entryName p \<noteq> ''..''
                     \<and> path_join d (entryName p) = p)
          (concat (map (\<lambda>p. p # ancestors p) (map fst fs)))))"

text \<open>
  \<open>unlinkSync\<close> removes a regular file; on a directory it throws \<open>EISDIR\<close>, on a path
  with nothing there \<open>ENOENT\<close>.
\<close>

definition unlinkSync :: "fileSystem \<Rightarrow> string \<Rightarrow> error + fileSystem" where
  "unlinkSync fs p =
     (if isDirectory fs p then Inl (FsError ''EISDIR'')
      else if \<not> isFile fs p then Inl (FsError ''ENOENT'')
      else Inr (AList.delete p fs))"

text \<open>A write puts a regular file at the path, in place of what the path held.\<close>

definition writeFileSync :: "fileSystem \<Rightarrow> string \<Rightarrow> content \<Rightarrow> fileSystem" where
  "writeFileSync fs p c = AList.update p (File c) fs"

text \<open>
  \<open>copyFileSync\<close> copies a regular file onto a path that is no directory; a source or a
  destination that is a directory throws \<open>EISDIR\<close>, a source that is not there \<open>ENOENT\<close>.
  The code copies into the build directory only, after \<open>mkdirSync\<close> has made it.
\<close>

definition copyFileSync :: "fileSystem \<Rightarrow> string \<Rightarrow> string \<Rightarrow> error + fileSystem" where
  "copyFileSync fs src dest =
     (if isDirectory fs src then Inl (FsError ''EISDIR'')
      else
        (case map_of fs src of
           Some (File c) \<Rightarrow>
             (if isDirectory fs dest then Inl (FsError ''EISDIR'')
              else Inr (AList.update dest (File c) fs))
         | _ \<Rightarrow> Inl (FsError ''ENOENT'')))"

subsection \<open>Collaborators outside these sources, and the state of a run\<close>

text \<open>
  The arguments of a container build (buildWithBuildx, or buildWithCompose when
  \<open>architecture\<close> is \<open>None\<close>; the property \<open>skipSave\<close> is written \<open>skipSaveArg\<close>) and its
  three final states of the spec.
\<close>

record buildArgs =
  architecture :: "string option"
  images :: "string list"
  composePath :: string
  buildTimeout :: nat
  skipSaveArg :: "bool option"
  destPath :: string

datatype buildOutcome = ARCHIVED content | TIMED_OUT | FAILED string

text \<open>An entry of the release record: the content address and the backend it was sent to.\<close>

record releaseEntry =
  hash :: string
  uploadedTo :: string

text \<open>
  The files, the shared Listr context, the release records (by package directory and
  version), the container builds and uploads (backend and provider) made so far, and
  what was written with \<open>console.error\<close>.
\<close>

record state =
  files :: fileSystem
  ctx :: listrContext
  releaseRecord :: "string \<times> string \<rightharpoonup> releaseEntry"
  builds :: "buildArgs list"
  uploads :: "(string \<times> string) list"
  console :: "(string \<times> error) list"

text \<open>
  What the run takes from its surroundings: the functions imported from modules that are
  not part of these sources, each with the result it gives (\<open>Inl\<close> when it throws), and
  the environment variable \<open>UPSTREAM_VERSION\<close>. The container builder is called once for
  each build; what it gives may depend on the state it is called in.
\<close>

record env =
  parseTimeout :: "string \<Rightarrow> error + nat"
  readManifest :: "string \<Rightarrow> error + manifest"
  getComposePath :: "string \<Rightarrow> error + string"
  readCompose :: "string \<Rightarrow> error + compose"
  updateComposeImageTags :: "compose \<Rightarrow> manifest \<Rightarrow> bool \<Rightarrow> error + compose"
  getComposePackageImages :: "compose \<Rightarrow> manifest \<Rightarrow> error + string list"
  parseArchitectures :: "string list \<Rightarrow> error + string list"
  getAssetPathRequired :: "releaseFile \<Rightarrow> string \<Rightarrow> error + string"
  getAssetPath :: "releaseFile \<Rightarrow> string \<Rightarrow> error + string option"
  verifyAvatar :: "string \<Rightarrow> error + unit"
  parseComposeUpstreamVersion :: "compose \<Rightarrow> error + string option"
  UPSTREAM_VERSION :: "string option"
  validateManifest :: "manifest \<Rightarrow> bool \<Rightarrow> error + unit"
  containerBuilder :: "state \<Rightarrow> buildArgs \<Rightarrow> buildOutcome"
  swarmAddDirFromFs :: "fileSystem \<Rightarrow> string \<Rightarrow> string \<Rightarrow> error + string"
  ipfsAddFromFs :: "fileSystem \<Rightarrow> string \<Rightarrow> string \<Rightarrow> error + string"
  releaseRecordStore :: "error + unit"
  pruneCache :: "error + unit"

text \<open>A step of a task: the state it leaves and the error it threw, if any.\<close>

type_synonym step = "state \<Rightarrow> error option \<times> state"

definition bindE :: "error + 'a \<Rightarrow> ('a \<Rightarrow> error + 'b) \<Rightarrow> error + 'b" where
  "bindE r f = (case r of Inl e \<Rightarrow> Inl e | Inr v \<Rightarrow> f v)"

definition andThen :: "step \<Rightarrow> step \<Rightarrow> step" where
  "andThen f g s = (case f s of (Some e, s') \<Rightarrow> (Some e, s') | (None, s') \<Rightarrow> g s')"

definition fsStep :: "(fileSystem \<Rightarrow> error + fileSystem) \<Rightarrow> step" where
  "fsStep f s = (case f (files s) of Inl e \<Rightarrow> (Some e, s) | Inr fs \<Rightarrow> (None, s\<lparr>files := fs\<rparr>))"

definition checkStep :: "error + unit \<Rightarrow> step" where
  "checkStep r s = (case r of Inl e \<Rightarrow> (Some e, s) | Inr _ \<Rightarrow> (None, s))"

subsection \<open>buildAndUpload: the statements before the task list\<close>

text \<open>
  The constants that the body of buildAndUpload computes before it returns its tasks.
  A primed name is the constant of that name in the source (\<open>architectures'\<close> is the
  parsed list, or \<open>None\<close> when the manifest declares none); \<open>name\<close> and \<open>version\<close> are read
  from \<open>manifest\<close>, which the last statement may change in \<open>upstreamVersion\<close> only.
\<close>

record locals =
  buildTimeout' :: nat
  manifest :: manifest
  composePath' :: string
  composeForBuild :: compose
  composeForRelease :: compose
  images' :: "string list"
  architectures' :: "string list option"
  imagePathAmd :: string
  imagePathLegacy :: string
  avatarBuildPath :: string
  avatarRootPath :: string

definition manifestImageMessage :: string where
  "manifestImageMessage =
     ''\<newline>DAppNode packages expect all docker related data to be contained only''
     @ ''\<newline>in the docker-compose.yml. Please translate the settings in 'manifest.image'\<newline>to your''
     @ '' package's docker-compose.yml and then delete the 'manifest.image' prop.''
     @ ''\<newline>''"

definition manifestAvatarMessage :: string where
  "manifestAvatarMessage =
     ''\<newline>DAppNode packages expect the avatar to be located at the root folder as a file''
     @ ''\<newline>and not declared in the manifest. Please add your package avatar to this directory''
     @ ''\<newline>as '' @ defaultName releaseFiles_avatar
     @ '' and then remove the 'manifest.avatar' property.''
     @ ''\<newline>''"

text \<open>
  \<open>parseComposeUpstreamVersion(composeForDev) || process.env.UPSTREAM_VERSION\<close>, and the
  assignment to \<open>manifest.upstreamVersion\<close> when the result is truthy.
\<close>

definition injectUpstreamVersion ::
  "string option \<Rightarrow> string option \<Rightarrow> manifest \<Rightarrow> manifest" where
  "injectUpstreamVersion composeUpstream envUpstream m =
     (let upstreamVersion' = (if truthy composeUpstream then composeUpstream else envUpstream)
      in if truthy upstreamVersion' then m\<lparr>upstreamVersion := upstreamVersion'\<rparr> else m)"

definition buildAndUpload_locals :: "env \<Rightarrow> options \<Rightarrow> error + locals" where
  "buildAndUpload_locals e opts =
     bindE (parseTimeout e (userTimeout opts)) (\<lambda>timeout.
     bindE (readManifest e (dir opts)) (\<lambda>m.
       if image' m \<noteq> None then Inl (CliError manifestImageMessage)
       else if truthy (avatar m) then Inl (CliError manifestAvatarMessage)
       else if hasUppercase (name m)
         then Inl (CliError ''Package name in the manifest must be lowercase'')
       else
     bindE (getComposePath e (dir opts)) (\<lambda>cPath.
     bindE (readCompose e (dir opts)) (\<lambda>composeForDev.
     bindE (updateComposeImageTags e composeForDev m False) (\<lambda>cBuild.
     bindE (updateComposeImageTags e composeForDev m True) (\<lambda>cRelease.
     bindE (getComposePackageImages e composeForDev m) (\<lambda>imgs.
     bindE (case architectures m of
              None \<Rightarrow> Inr None
            | Some declared \<Rightarrow>
                (case parseArchitectures e declared of
                   Inl err \<Rightarrow> Inl err | Inr archs \<Rightarrow> Inr (Some archs))) (\<lambda>archs.
     bindE (getAssetPathRequired e releaseFiles_avatar (dir opts)) (\<lambda>avatarRoot.
     bindE (if avatarRoot \<noteq> [] then verifyAvatar e avatarRoot else Inr ()) (\<lambda>_.
     bindE (parseComposeUpstreamVersion e composeForDev) (\<lambda>composeUpstream.
       Inr \<lparr>buildTimeout' = timeout,
            manifest = injectUpstreamVersion composeUpstream (UPSTREAM_VERSION e) m,
            composePath' = cPath,
            composeForBuild = cBuild,
            composeForRelease = cRelease,
            images' = imgs,
            architectures' = archs,
            imagePathAmd =
              path_join (buildDir opts) (getImagePath (name m) (version m) ''linux/amd64''),
            imagePathLegacy =
              path_join (buildDir opts) (getLegacyImagePath (name m) (version m)),
            avatarBuildPath = path_join (buildDir opts) ''avatar.png'',
            avatarRootPath = avatarRoot\<rparr>)))))))))))"

subsection \<open>Listr\<close>

text \<open>
  A task of a Listr list, with its \<open>skip\<close> function already evaluated. Listr runs the
  tasks in order, passes over a task whose \<open>skip\<close> is truthy, and stops at the first
  task that throws.
\<close>

record listrTask =
  title :: string
  skip :: bool
  task :: step

fun runListr :: "listrTask list \<Rightarrow> step" where
  "runListr [] s = (None, s)"
| "runListr (t # ts) s =
     (if skip t then runListr ts s
      else (case task t s of
              (Some e, s') \<Rightarrow> (Some e, s')
            | (None, s') \<Rightarrow> runListr ts s'))"

subsection \<open>Task "Create release dir"\<close>

fun cleanFiles ::
  "string \<Rightarrow> string list \<Rightarrow> string list \<Rightarrow> fileSystem \<Rightarrow> error option \<times> fileSystem" where
  "cleanFiles bd imagePaths [] fs = (None, fs)"
| "cleanFiles bd imagePaths (filepath # buildFiles) fs =
     (if filepath \<notin> set imagePaths then
        (case unlinkSync fs (path_join bd filepath) of
           Inl e \<Rightarrow> (Some e, fs)
         | Inr fs' \<Rightarrow> cleanFiles bd imagePaths buildFiles fs')
      else cleanFiles bd imagePaths buildFiles fs)"

definition expectedImagePaths :: "locals \<Rightarrow> string list" where
  "expectedImagePaths l =
     (case architectures' l of
        Some archs \<Rightarrow> map (getImagePath (name (manifest l)) (version (manifest l))) archs
      | None \<Rightarrow> [imagePathAmd l])"

definition createReleaseDir :: "options \<Rightarrow> locals \<Rightarrow> step" where
  "createReleaseDir opts l s =
     (case mkdirSync (files s) (buildDir opts) of
        Inl err \<Rightarrow> (Some err, s)
      | Inr fs0 \<Rightarrow>
          (let buildFiles = readdirSync fs0 (buildDir opts)
           in case cleanFiles (buildDir opts) (expectedImagePaths l) buildFiles fs0 of
                (r, fs') \<Rightarrow> (r, s\<lparr>files := fs'\<rparr>)))"

subsection \<open>Task "Copy files and validate"\<close>

text \<open>
  Modelled from the spec: writeCompose and writeManifest (utils/compose and
  utils/manifest are not part of these sources). The spec has them write the
  composition and the finalized manifest into the given directory; the file names are
  the default names of params.ts.
\<close>

definition writeCompose :: "string \<Rightarrow> compose \<Rightarrow> step" where
  "writeCompose d c s =
     (None, s\<lparr>files :=
        writeFileSync (files s) (path_join d (defaultName releaseFiles_compose)) (ComposeYml c)\<rparr>)"

definition writeManifest :: "string \<Rightarrow> manifest \<Rightarrow> step" where
  "writeManifest d m s =
     (None, s\<lparr>files :=
        writeFileSync (files s) (path_join d (defaultName releaseFiles_manifest)) (ManifestJson m)\<rparr>)"

definition additionalFiles :: "releaseFile list" where
  "additionalFiles =
     [releaseFiles_setupWizard, releaseFiles_setupSchema, releaseFiles_setupTarget,
      releaseFiles_setupUiJson, releaseFiles_disclaimer, releaseFiles_gettingStarted]"

fun copyAdditionalFiles :: "env \<Rightarrow> options \<Rightarrow> releaseFile list \<Rightarrow> step" where
  "copyAdditionalFiles e opts [] s = (None, s)"
| "copyAdditionalFiles e opts (rf # rfs) s =
     (case getAssetPath e rf (dir opts) of
        Inl err \<Rightarrow> (Some err, s)
      | Inr None \<Rightarrow> copyAdditionalFiles e opts rfs s
      | Inr (Some filePath) \<Rightarrow>
          (if filePath = [] then copyAdditionalFiles e opts rfs s
           else
             (case copyFileSync (files s) filePath
                     (path_join (buildDir opts) (defaultName rf)) of
                Inl err \<Rightarrow> (Some err, s)
              | Inr fs \<Rightarrow> copyAdditionalFiles e opts rfs (s\<lparr>files := fs\<rparr>))))"

definition copyFilesAndValidate :: "env \<Rightarrow> options \<Rightarrow> locals \<Rightarrow> step" where
  "copyFilesAndValidate e opts l =
     andThen (writeCompose (dir opts) (composeForBuild l))
    (andThen (fsStep (\<lambda>fs. copyFileSync fs (avatarRootPath l) (avatarBuildPath l)))
    (andThen (writeCompose (buildDir opts) (composeForRelease l))
    (andThen (writeManifest (buildDir opts) (manifest l))
    (andThen (checkStep (validateManifest e (manifest l) True))
             (copyAdditionalFiles e opts additionalFiles)))))"

subsection \<open>The image builds\<close>

text \<open>
  Modelled from the spec: buildWithBuildx and buildWithCompose (tasks/buildWithBuildx
  and tasks/buildWithCompose are not part of these sources). The spec's container
  builder takes the composition path, the architecture, the external images and the
  timeout, and either leaves the packed archive at the destination path or signals a
  timeout (naming the architecture) or a failure.
\<close>

definition runBuild :: "env \<Rightarrow> buildArgs \<Rightarrow> step" where
  "runBuild e args s =
     (let s1 = s\<lparr>builds := builds s @ [args]\<rparr>
      in case containerBuilder e s args of
           ARCHIVED c \<Rightarrow> (None, s1\<lparr>files := writeFileSync (files s1) (destPath args) c\<rparr>)
         | TIMED_OUT \<Rightarrow>
             (Some (BuildTimeoutError (case architecture args of None \<Rightarrow> [] | Some a \<Rightarrow> a)), s1)
         | FAILED msg \<Rightarrow> (Some (BuildError msg), s1))"

definition buildWithBuildx :: "env \<Rightarrow> buildArgs \<Rightarrow> listrTask list" where
  "buildWithBuildx e args = [\<lparr>title = ''Build'', skip = False, task = runBuild e args\<rparr>]"

definition buildWithCompose :: "env \<Rightarrow> buildArgs \<Rightarrow> listrTask list" where
  "buildWithCompose e args =
     [\<lparr>title = ''Build'', skip = False, task = runBuild e (args\<lparr>architecture := None\<rparr>)\<rparr>]"

definition architectureBuildArgs :: "options \<Rightarrow> locals \<Rightarrow> string \<Rightarrow> buildArgs" where
  "architectureBuildArgs opts l arch =
     \<lparr>architecture = Some arch,
      images = images' l,
      composePath = composePath' l,
      buildTimeout = buildTimeout' l,
      skipSaveArg = skipSave opts,
      destPath =
        path_join (buildDir opts)
          (getImagePath (name (manifest l)) (version (manifest l)) arch)\<rparr>"

definition buildArchitectureTask :: "env \<Rightarrow> options \<Rightarrow> locals \<Rightarrow> string \<Rightarrow> listrTask" where
  "buildArchitectureTask e opts l arch =
     \<lparr>title = ''Build architecture '' @ arch,
      skip = False,
      task = runListr (buildWithBuildx e (architectureBuildArgs opts l arch))\<rparr>"

definition composeBuildArgs :: "options \<Rightarrow> locals \<Rightarrow> buildArgs" where
  "composeBuildArgs opts l =
     \<lparr>architecture = None,
      images = images' l,
      composePath = composePath' l,
      buildTimeout = buildTimeout' l,
      skipSaveArg = skipSave opts,
      destPath = imagePathAmd l\<rparr>"

definition buildTasks :: "env \<Rightarrow> options \<Rightarrow> locals \<Rightarrow> listrTask list" where
  "buildTasks e opts l =
     (case architectures' l of
        Some archs \<Rightarrow> map (buildArchitectureTask e opts l) archs
      | None \<Rightarrow> buildWithCompose e (composeBuildArgs opts l))"

subsection \<open>The upload tasks\<close>

definition uploadToSwarmTask :: "env \<Rightarrow> options \<Rightarrow> step" where
  "uploadToSwarmTask e opts s =
     (let s1 = s\<lparr>uploads := uploads s @ [(''swarm'', swarmProvider opts)]\<rparr>
      in case swarmAddDirFromFs e (files s1) (buildDir opts) (swarmProvider opts) of
           Inl err \<Rightarrow> (Some err, s1)
         | Inr h \<Rightarrow> (None, s1\<lparr>ctx := (ctx s1)\<lparr>releaseHash := Some h\<rparr>\<rparr>))"

definition copyLegacyImage :: "locals \<Rightarrow> step" where
  "copyLegacyImage l =
     fsStep (\<lambda>fs. if existsSync fs (imagePathAmd l)
                  then copyFileSync fs (imagePathAmd l) (imagePathLegacy l)
                  else Inr fs)"

text \<open>The statement \<open>ctx.releaseHash = await ipfsAddFromFs(...)\<close> of the IPFS task.\<close>

definition ipfsUpload :: "env \<Rightarrow> options \<Rightarrow> step" where
  "ipfsUpload e opts s =
     (let s1 = s\<lparr>uploads := uploads s @ [(''ipfs'', ipfsProvider opts)]\<rparr>
      in case ipfsAddFromFs e (files s1) (buildDir opts) (ipfsProvider opts) of
           Inl err \<Rightarrow> (Some err, s1)
         | Inr h \<Rightarrow> (None, s1\<lparr>ctx := (ctx s1)\<lparr>releaseHash := Some h\<rparr>\<rparr>))"

definition uploadToIpfsTask :: "env \<Rightarrow> options \<Rightarrow> locals \<Rightarrow> step" where
  "uploadToIpfsTask e opts l = andThen (copyLegacyImage l) (ipfsUpload e opts)"

definition uploadTask :: "env \<Rightarrow> options \<Rightarrow> locals \<Rightarrow> listrTask" where
  "uploadTask e opts l =
     (if uploadToSwarm opts
      then \<lparr>title = ''Upload release to Swarm'',
            skip = truthyFlag (skipUpload opts),
            task = uploadToSwarmTask e opts\<rparr>
      else \<lparr>title = ''Upload release to IPFS'',
            skip = truthyFlag (skipUpload opts),
            task = uploadToIpfsTask e opts l\<rparr>)"

subsection \<open>Task "Save upload results"\<close>

text \<open>
  Modelled from the spec: addReleaseRecord (utils/releaseRecord is not part of these
  sources). The spec's release record store takes the directory, the version, the
  content address and the backend identifier, and persists the entry for that version
  or signals a write failure. The spec has the record of a version made by a successful
  upload, has the stages after a skipped upload tolerate the absent content address, and
  has no record written then: given no content address, the store is left as it is.
\<close>

definition addReleaseRecord ::
  "env \<Rightarrow> string \<Rightarrow> string \<Rightarrow> string option \<Rightarrow> string \<Rightarrow> step" where
  "addReleaseRecord e d ver h to s =
     (case h of
        None \<Rightarrow> (None, s)
      | Some address \<Rightarrow>
          (case releaseRecordStore e of
             Inl err \<Rightarrow> (Some err, s)
           | Inr _ \<Rightarrow>
               (None, s\<lparr>releaseRecord :=
                  (releaseRecord s)((d, ver) \<mapsto> \<lparr>hash = address, uploadedTo = to\<rparr>)\<rparr>)))"

text \<open>The \<open>try\<close> around \<open>pruneCache\<close>: what it throws is written to the console, not rethrown.\<close>

definition tryPruneCache :: "env \<Rightarrow> step" where
  "tryPruneCache e s =
     (case pruneCache e of
        Inl err \<Rightarrow> (None, s\<lparr>console := console s @ [(''Error on pruneCache'', err)]\<rparr>)
      | Inr _ \<Rightarrow> (None, s))"

definition saveUploadResults :: "env \<Rightarrow> options \<Rightarrow> locals \<Rightarrow> step" where
  "saveUploadResults e opts l =
     andThen (\<lambda>s. addReleaseRecord e (dir opts) (version (manifest l)) (releaseHash (ctx s))
                    (if uploadToSwarm opts then swarmProvider opts else ipfsProvider opts) s)
    (andThen (\<lambda>s. (None, s\<lparr>ctx := (ctx s)\<lparr>releaseMultiHash := releaseHash (ctx s)\<rparr>\<rparr>))
             (tryPruneCache e))"

subsection \<open>buildAndUpload and its run\<close>

definition taskList :: "env \<Rightarrow> options \<Rightarrow> locals \<Rightarrow> listrTask list" where
  "taskList e opts l =
     [\<lparr>title = ''Create release dir'', skip = False, task = createReleaseDir opts l\<rparr>,
      \<lparr>title = ''Copy files and validate'', skip = False, task = copyFilesAndValidate e opts l\<rparr>]
     @ buildTasks e opts l
     @ [uploadTask e opts l,
        \<lparr>title = ''Save upload results'', skip = False, task = saveUploadResults e opts l\<rparr>]"

definition buildAndUpload :: "env \<Rightarrow> options \<Rightarrow> error + listrTask list" where
  "buildAndUpload e opts = bindE (buildAndUpload_locals e opts) (\<lambda>l. Inr (taskList e opts l))"

text \<open>
  The run of the pipeline, as the callers make it: \<open>new Listr(buildAndUpload(...))\<close> and
  then \<open>run\<close>. An error thrown by buildAndUpload itself leaves the state as it was.
\<close>

definition runBuildAndUpload :: "env \<Rightarrow> options \<Rightarrow> step" where
  "runBuildAndUpload e opts s =
     (case buildAndUpload e opts of
        Inl err \<Rightarrow> (Some err, s)
      | Inr tasks \<Rightarrow> runListr tasks s)"

section \<open>Notions used in the proofs\<close>

subsection \<open>The part of the state outside the files\<close>

definition rest ::
  "state \<Rightarrow> listrContext \<times> (string \<times> string \<rightharpoonup> releaseEntry) \<times> buildArgs list
     \<times> (string \<times> string) list \<times> (string \<times> error) list" where
  "rest s = (ctx s, releaseRecord s, builds s, uploads s, console s)"

text \<open>The tasks of the list but the last.\<close>

definition tasksBeforeSave :: "env \<Rightarrow> options \<Rightarrow> locals \<Rightarrow> listrTask list" where
  "tasksBeforeSave e opts l =
     [\<lparr>title = ''Create release dir'', skip = False, task = createReleaseDir opts l\<rparr>,
      \<lparr>title = ''Copy files and validate'', skip = False, task = copyFilesAndValidate e opts l\<rparr>]
     @ buildTasks e opts l @ [uploadTask e opts l]"

text \<open>The container builds that the build tasks make, in order.\<close>

definition expectedBuilds :: "options \<Rightarrow> locals \<Rightarrow> buildArgs list" where
  "expectedBuilds opts l =
     (case architectures' l of
        Some archs \<Rightarrow> map (architectureBuildArgs opts l) archs
      | None \<Rightarrow> [composeBuildArgs opts l])"

text \<open>The paths that the task "Copy files and validate" may write.\<close>

definition copyTargets :: "options \<Rightarrow> locals \<Rightarrow> string list" where
  "copyTargets opts l =
     [path_join (dir opts) (defaultName releaseFiles_compose),
      avatarBuildPath l,
      path_join (buildDir opts) (defaultName releaseFiles_compose),
      path_join (buildDir opts) (defaultName releaseFiles_manifest)]
     @ map (\<lambda>rf. path_join (buildDir opts) (defaultName rf)) additionalFiles"

subsection \<open>A sample package\<close>

text \<open>
  A package \<open>foo\<close> at version \<open>1.0.0\<close> in the directory \<open>/p\<close>, built in \<open>/b\<close>, with
  collaborators that all succeed. The manifest that readManifest returns is a parameter.
\<close>

definition exManifest :: manifest where
  "exManifest =
     \<lparr>name = ''foo'', version = ''1.0.0'', architectures = None, upstreamVersion = None,
      image' = None, avatar = None\<rparr>"

definition exEnv :: "manifest \<Rightarrow> env" where
  "exEnv m =
     \<lparr>parseTimeout = (\<lambda>_. Inr 60),
      readManifest = (\<lambda>_. Inr m),
      getComposePath = (\<lambda>_. Inr ''/p/docker-compose.yml''),
      readCompose = (\<lambda>_. Inr ''services''),
      updateComposeImageTags = (\<lambda>c _ _. Inr c),
      getComposePackageImages = (\<lambda>_ _. Inr []),
      parseArchitectures = (\<lambda>archs. Inr archs),
      getAssetPathRequired = (\<lambda>_ _. Inr ''/p/avatar.png''),
      getAssetPath = (\<lambda>_ _. Inr None),
      verifyAvatar = (\<lambda>_. Inr ()),
      parseComposeUpstreamVersion = (\<lambda>_. Inr None),
      UPSTREAM_VERSION = None,
      validateManifest = (\<lambda>_ _. Inr ()),
      containerBuilder = (\<lambda>_ _. ARCHIVED (Data ''image'')),
      swarmAddDirFromFs = (\<lambda>_ _ _. Inr ''bzz''),
      ipfsAddFromFs = (\<lambda>_ _ _. Inr ''/ipfs/Qm''),
      releaseRecordStore = Inr (),
      pruneCache = Inr ()\<rparr>"

definition exOptions :: options where
  "exOptions =
     \<lparr>buildDir = ''/b'', ipfsProvider = ''dappnode'', swarmProvider = ''swarm.io'',
      userTimeout = ''60min'', uploadToSwarm = False, skipSave = None, skipUpload = None,
      dir = ''/p''\<rparr>"

definition exState :: "fileSystem \<Rightarrow> state" where
  "exState fs =
     \<lparr>files = fs,
      ctx = \<lparr>releaseHash = None, releaseMultiHash = None\<rparr>,
      releaseRecord = Map.empty,
      builds = [],
      uploads = [],
      console = []\<rparr>"

text \<open>What buildAndUpload computes for the sample package before it returns its tasks.\<close>

definition exLocals :: locals where
  "exLocals =
     \<lparr>buildTimeout' = 60,
      manifest = exManifest,
      composePath' = ''/p/docker-compose.yml'',
      composeForBuild = ''services'',
      composeForRelease = ''services'',
      images' = [],
      architectures' = None,
      imagePathAmd = ''/b/foo_1.0.0_linux-amd64.txz'',
      imagePathLegacy = ''/b/foo_1.0.0.tar.xz'',
      avatarBuildPath = ''/b/avatar.png'',
      avatarRootPath = ''/p/avatar.png''\<rparr>"

text \<open>The files before a run: the avatar of the package.\<close>

definition exFiles :: fileSystem where
  "exFiles = [(''/p/avatar.png'', File (Data ''png''))]"

text \<open>The same package declaring two architectures.\<close>

definition exManifestArchs :: manifest where
  "exManifestArchs = exManifest\<lparr>architectures := Some [''linux/amd64'', ''linux/arm64'']\<rparr>"

definition exLocalsArchs :: locals where
  "exLocalsArchs =
     exLocals\<lparr>manifest := exManifestArchs,
              architectures' := Some [''linux/amd64'', ''linux/arm64'']\<rparr>"

text \<open>
  The files before a run in a build directory that an earlier run has used: an archive
  for an architecture no longer declared, and a legacy-named archive.
\<close>

definition exFilesStale :: fileSystem where
  "exFilesStale =
     [(''/p/avatar.png'', File (Data ''png'')),
      (''/b/foo_1.0.0_linux-riscv64.txz'', File (Data ''stale'')),
      (''/b/foo_1.0.0.tar.xz'', File (Data ''stale''))]"

text \<open>
  The sample collaborators with an IPFS store whose content address tells whether the
  tree it is given holds the legacy-named archive.
\<close>

definition exEnvTree :: env where
  "exEnvTree =
     (exEnv exManifest)\<lparr>ipfsAddFromFs :=
        (\<lambda>fs _ _. Inr (if isFile fs ''/b/foo_1.0.0.tar.xz''
                        then ''/ipfs/QmWithLegacy'' else ''/ipfs/QmWithout''))\<rparr>"

text \<open>
  The states of a run of the sample package over the used build directory: after the
  task "Create release dir", after the task "Copy files and validate", and after the
  build, which is where the upload task starts.
\<close>

definition exStateCleaned :: state where
  "exStateCleaned = snd (createReleaseDir exOptions exLocals (exState exFilesStale))"

definition exStateCopied :: state where
  "exStateCopied = snd (copyFilesAndValidate exEnvTree exOptions exLocals exStateCleaned)"

definition exStateBuilt :: state where
  "exStateBuilt = snd (runListr (buildTasks exEnvTree exOptions exLocals) exStateCopied)"

section \<open>Auxiliary facts\<close>

lemma isUpperAZ_capitals: "c \<in> set ''ABCDEFGHIJKLMNOPQRSTUVWXYZ'' \<Longrightarrow> isUpperAZ c"
  by (auto simp: isUpperAZ_def)

lemma hasUppercase_iff: "hasUppercase s \<longleftrightarrow> (\<exists>c \<in> set s. isUpperAZ c)"
  by (simp add: hasUppercase_def list_ex_iff)

lemma locals_image_set:
  assumes "parseTimeout e (userTimeout opts) = Inr t"
      and "readManifest e (dir opts) = Inr m"
      and "image' m \<noteq> None"
  shows "buildAndUpload_locals e opts = Inl (CliError manifestImageMessage)"
  using assms by (simp add: buildAndUpload_locals_def bindE_def)

lemma locals_avatar_set:
  assumes "parseTimeout e (userTimeout opts) = Inr t"
      and "readManifest e (dir opts) = Inr m"
      and "image' m = None" and "truthy (avatar m)"
  shows "buildAndUpload_locals e opts = Inl (CliError manifestAvatarMessage)"
  using assms by (simp add: buildAndUpload_locals_def bindE_def)

lemma locals_uppercase:
  assumes "parseTimeout e (userTimeout opts) = Inr t"
      and "readManifest e (dir opts) = Inr m"
      and "image' m = None" and "\<not> truthy (avatar m)" and "hasUppercase (name m)"
  shows "buildAndUpload_locals e opts =
           Inl (CliError ''Package name in the manifest must be lowercase'')"
  using assms by (simp add: buildAndUpload_locals_def bindE_def)

lemma run_locals_error:
  "buildAndUpload_locals e opts = Inl err \<Longrightarrow> runBuildAndUpload e opts s = (Some err, s)"
  by (simp add: runBuildAndUpload_def buildAndUpload_def bindE_def)

lemma locals_manifest:
  assumes "buildAndUpload_locals e opts = Inr l"
  shows "\<exists>m c cu. readManifest e (dir opts) = Inr m \<and> readCompose e (dir opts) = Inr c
           \<and> parseComposeUpstreamVersion e c = Inr cu
           \<and> manifest l = injectUpstreamVersion cu (UPSTREAM_VERSION e) m
           \<and> imagePathAmd l = path_join (buildDir opts) (getImagePath (name m) (version m) ''linux/amd64'')
           \<and> imagePathLegacy l = path_join (buildDir opts) (getLegacyImagePath (name m) (version m))
           \<and> avatarBuildPath l = path_join (buildDir opts) ''avatar.png''
           \<and> (case architectures m of None \<Rightarrow> architectures' l = None
               | Some d \<Rightarrow> \<exists>a. parseArchitectures e d = Inr a \<and> architectures' l = Some a)"
  using assms
  by (auto simp: buildAndUpload_locals_def bindE_def split: sum.splits if_splits option.splits)

lemma runListr_append:
  "runListr (xs @ ys) s =
     (case runListr xs s of (Some e, s') \<Rightarrow> (Some e, s') | (None, s') \<Rightarrow> runListr ys s')"
  by (induction xs arbitrary: s) (auto split: option.splits prod.splits)

lemma runListr_frame:
  assumes "\<And>t s. t \<in> set ts \<Longrightarrow> \<not> skip t \<Longrightarrow> f (snd (task t s)) = f s"
  shows "f (snd (runListr ts s)) = f s"
  using assms
proof (induction ts arbitrary: s)
  case Nil
  then show ?case by simp
next
  case (Cons t ts)
  show ?case
  proof (cases "skip t")
    case True
    with Cons show ?thesis by simp
  next
    case False
    obtain r s1 where step: "task t s = (r, s1)" by (cases "task t s")
    from Cons.prems[of t s] False step have f1: "f s1 = f s" by simp
    show ?thesis
    proof (cases r)
      case None
      with False step have "runListr (t # ts) s = runListr ts s1" by simp
      moreover have "f (snd (runListr ts s1)) = f s1"
        by (rule Cons.IH) (simp add: Cons.prems)
      ultimately show ?thesis using f1 by simp
    next
      case (Some e)
      with False step f1 show ?thesis by simp
    qed
  qed
qed


lemma andThen_frame:
  assumes "\<And>s. p (snd (f s)) = p s" and "\<And>s. p (snd (g s)) = p s"
  shows "p (snd (andThen f g s)) = p s"
proof -
  obtain r s1 where step: "f s = (r, s1)" by (cases "f s")
  from assms(1)[of s] step have "p s1 = p s" by simp
  with step assms(2)[of s1] show ?thesis
    by (cases r) (simp_all add: andThen_def)
qed

lemma rest_fsStep: "rest (snd (fsStep f s)) = rest s"
  by (simp add: fsStep_def rest_def split: sum.splits)

lemma rest_checkStep: "rest (snd (checkStep r s)) = rest s"
  by (simp add: checkStep_def split: sum.splits)

lemma rest_writeCompose: "rest (snd (writeCompose d c s)) = rest s"
  by (simp add: writeCompose_def rest_def)

lemma rest_writeManifest: "rest (snd (writeManifest d c s)) = rest s"
  by (simp add: writeManifest_def rest_def)

lemma rest_copyAdditionalFiles: "rest (snd (copyAdditionalFiles e opts rfs s)) = rest s"
proof (induction rfs arbitrary: s)
  case Nil
  show ?case by simp
next
  case (Cons rf rfs)
  have upd: "rest (s\<lparr>files := fs\<rparr>) = rest s" for fs by (simp add: rest_def)
  show ?case
    using Cons.IH upd by (simp split: sum.splits option.splits)
qed

lemma rest_copyFilesAndValidate: "rest (snd (copyFilesAndValidate e opts l s)) = rest s"
  unfolding copyFilesAndValidate_def
  by (intro andThen_frame rest_fsStep rest_checkStep rest_writeCompose
        rest_writeManifest rest_copyAdditionalFiles)

lemma rest_createReleaseDir: "rest (snd (createReleaseDir opts l s)) = rest s"
  by (simp add: createReleaseDir_def Let_def rest_def split: prod.splits sum.splits)


lemma exEnv_fields:
  "parseTimeout (exEnv m) u = Inr 60"
  "readManifest (exEnv m) d = Inr m"
  "getComposePath (exEnv m) d = Inr ''/p/docker-compose.yml''"
  "readCompose (exEnv m) d = Inr ''services''"
  "updateComposeImageTags (exEnv m) c m' b = Inr c"
  "getComposePackageImages (exEnv m) c m' = Inr []"
  "parseArchitectures (exEnv m) archs = Inr archs"
  "getAssetPathRequired (exEnv m) rf d = Inr ''/p/avatar.png''"
  "getAssetPath (exEnv m) rf d = Inr None"
  "verifyAvatar (exEnv m) p = Inr ()"
  "parseComposeUpstreamVersion (exEnv m) c = Inr None"
  "UPSTREAM_VERSION (exEnv m) = None"
  "validateManifest (exEnv m) m' b = Inr ()"
  "containerBuilder (exEnv m) st args = ARCHIVED (Data ''image'')"
  "swarmAddDirFromFs (exEnv m) fs d p = Inr ''bzz''"
  "ipfsAddFromFs (exEnv m) fs d p = Inr ''/ipfs/Qm''"
  "releaseRecordStore (exEnv m) = Inr ()"
  "pruneCache (exEnv m) = Inr ()"
  by (simp_all add: exEnv_def)

lemma locals_pruneCache:
  "buildAndUpload_locals (e\<lparr>pruneCache := x\<rparr>) opts = buildAndUpload_locals e opts"
  by (simp add: buildAndUpload_locals_def cong: if_cong option.case_cong)

lemma copyAdditionalFiles_pruneCache:
  "copyAdditionalFiles (e\<lparr>pruneCache := x\<rparr>) opts rfs s = copyAdditionalFiles e opts rfs s"
  by (induction rfs arbitrary: s) (simp_all split: sum.splits option.splits)

lemma copyFilesAndValidate_pruneCache:
  "copyFilesAndValidate (e\<lparr>pruneCache := x\<rparr>) opts l = copyFilesAndValidate e opts l"
  by (simp add: copyFilesAndValidate_def copyAdditionalFiles_pruneCache[abs_def] fun_eq_iff)

lemma buildTasks_pruneCache:
  "buildTasks (e\<lparr>pruneCache := x\<rparr>) opts l = buildTasks e opts l"
  by (simp add: buildTasks_def buildArchitectureTask_def buildWithBuildx_def
        buildWithCompose_def runBuild_def[abs_def] split: option.splits)

lemma uploadTask_pruneCache:
  "uploadTask (e\<lparr>pruneCache := x\<rparr>) opts l = uploadTask e opts l"
  by (simp add: uploadTask_def uploadToSwarmTask_def[abs_def] uploadToIpfsTask_def
        ipfsUpload_def[abs_def])

lemma saveUploadResults_pruneCache:
  assumes "saveUploadResults (e\<lparr>pruneCache := Inr ()\<rparr>) opts l s = (None, s')"
  shows "saveUploadResults (e\<lparr>pruneCache := Inl err\<rparr>) opts l s =
           (None, s'\<lparr>console := console s' @ [(''Error on pruneCache'', err)]\<rparr>)"
  using assms
  by (auto simp: saveUploadResults_def andThen_def addReleaseRecord_def tryPruneCache_def
           split: sum.splits option.splits)

lemma taskList_split:
  "taskList e opts l = tasksBeforeSave e opts l
     @ [\<lparr>title = ''Save upload results'', skip = False, task = saveUploadResults e opts l\<rparr>]"
  by (simp add: taskList_def tasksBeforeSave_def)

lemma tasksBeforeSave_pruneCache:
  "tasksBeforeSave (e\<lparr>pruneCache := x\<rparr>) opts l = tasksBeforeSave e opts l"
  by (simp add: tasksBeforeSave_def copyFilesAndValidate_pruneCache buildTasks_pruneCache
        uploadTask_pruneCache)

lemma run_success:
  "runBuildAndUpload e opts s = (None, s') \<longleftrightarrow>
     (\<exists>l s4. buildAndUpload_locals e opts = Inr l
        \<and> runListr (tasksBeforeSave e opts l) s = (None, s4)
        \<and> saveUploadResults e opts l s4 = (None, s'))"
  by (auto simp: runBuildAndUpload_def buildAndUpload_def bindE_def taskList_split
        runListr_append split: sum.splits option.splits prod.splits)

subsection \<open>Files and directories\<close>

lemma entryName_no_sep: "CHR ''/'' \<notin> set (entryName p)"
proof
  assume "CHR ''/'' \<in> set (entryName p)"
  then have "CHR ''/'' \<in> set (takeWhile (\<lambda>c. c \<noteq> CHR ''/'') (rev p))"
    by (simp add: entryName_def)
  then show False by (auto dest: set_takeWhileD)
qed

lemma isFile_iff: "isFile fs p \<longleftrightarrow> (\<exists>c. map_of fs p = Some (File c))"
  by (simp add: isFile_def split: option.splits node.splits)

lemma isDirectory_iff:
  "isDirectory fs p \<longleftrightarrow>
     map_of fs p = Some Directory \<or> (\<exists>k \<in> dom (map_of fs). p \<in> set (ancestors k))"
  by (auto simp: isDirectory_def list_ex_iff dom_map_of_conv_image_fst)

lemma existsSync_iff:
  "existsSync fs p \<longleftrightarrow>
     p \<in> dom (map_of fs) \<or> (\<exists>k \<in> dom (map_of fs). p \<in> set (ancestors k))"
proof -
  have "p \<in> dom (map_of fs) \<longleftrightarrow> (\<exists>c. map_of fs p = Some (File c)) \<or> map_of fs p = Some Directory"
    by (cases "map_of fs p") (auto intro: node.exhaust)
  then show ?thesis
    unfolding existsSync_def isFile_iff isDirectory_iff by blast
qed

lemma isDirectory_mono:
  assumes "map_of fs' \<subseteq>\<^sub>m map_of fs" and "isDirectory fs' p"
  shows "isDirectory fs p"
proof -
  from assms(1) have d: "dom (map_of fs') \<subseteq> dom (map_of fs)" by (rule map_le_implies_dom_le)
  from assms(2) consider "map_of fs' p = Some Directory"
    | k where "k \<in> dom (map_of fs')" "p \<in> set (ancestors k)"
    unfolding isDirectory_iff by blast
  then show ?thesis
  proof cases
    case 1
    with assms(1) have "map_of fs p = Some Directory"
      unfolding map_le_def by (metis domI)
    then show ?thesis unfolding isDirectory_iff by simp
  next
    case 2
    with d show ?thesis unfolding isDirectory_iff by blast
  qed
qed

lemma existsSync_mono:
  assumes "dom (map_of fs') \<subseteq> dom (map_of fs)" and "existsSync fs' p"
  shows "existsSync fs p"
  using assms unfolding existsSync_iff by blast

lemma delete_map_le: "map_of (AList.delete p fs) \<subseteq>\<^sub>m map_of fs"
  by (simp add: map_le_def delete_conv' dom_def)

lemma isFile_write: "isFile (writeFileSync fs p c) q \<longleftrightarrow> q = p \<or> isFile fs q"
  by (simp add: isFile_iff writeFileSync_def update_conv')

lemma unlinkSync_success:
  "unlinkSync fs p = Inr fs' \<longleftrightarrow>
     \<not> isDirectory fs p \<and> isFile fs p \<and> fs' = AList.delete p fs"
  by (auto simp: unlinkSync_def)

lemma copyFileSync_success:
  "copyFileSync fs src dest = Inr fs' \<longleftrightarrow>
     \<not> isDirectory fs src \<and> \<not> isDirectory fs dest
     \<and> (\<exists>c. map_of fs src = Some (File c) \<and> fs' = AList.update dest (File c) fs)"
  by (auto simp: copyFileSync_def split: option.splits node.splits)

lemma copyFileSync_map:
  assumes "copyFileSync fs src dest = Inr fs'"
  shows "map_of fs' = (map_of fs)(dest := map_of fs src)" and "isFile fs src" and "isFile fs' dest"
  using assms unfolding copyFileSync_success isFile_iff
  by (auto simp: update_conv' fun_eq_iff)

lemma mkdirSync_success:
  assumes "mkdirSync fs d = Inr fs0"
  shows "map_of fs0 = (map_of fs)(resolveDir d \<mapsto> Directory)"
    and "\<not> isFile fs (resolveDir d)"
    and "isFile fs0 p \<longleftrightarrow> isFile fs p"
    and "dom (map_of fs) \<subseteq> dom (map_of fs0)"
proof -
  from assms have fs0: "fs0 = AList.update (resolveDir d) Directory fs"
    and nf: "\<not> isFile fs (resolveDir d)"
    by (auto simp: mkdirSync_def split: if_splits)
  from fs0 show m: "map_of fs0 = (map_of fs)(resolveDir d \<mapsto> Directory)"
    by (simp add: update_conv')
  from nf show "\<not> isFile fs (resolveDir d)" .
  from m nf show "isFile fs0 p \<longleftrightarrow> isFile fs p"
    by (auto simp: isFile_iff)
  from m show "dom (map_of fs) \<subseteq> dom (map_of fs0)" by auto
qed

lemma existsSync_candidates:
  "existsSync fs p \<longleftrightarrow> p \<in> set (concat (map (\<lambda>k. k # ancestors k) (map fst fs)))"
  unfolding existsSync_iff by (auto simp: dom_map_of_conv_image_fst)

lemma readdirSync_iff:
  "f \<in> set (readdirSync fs d) \<longleftrightarrow>
     f \<noteq> [] \<and> f \<noteq> ''.'' \<and> f \<noteq> ''..'' \<and> entryName (path_join d f) = f
     \<and> existsSync fs (path_join d f)"
proof
  assume "f \<in> set (readdirSync fs d)"
  then obtain p where p: "p \<in> set (concat (map (\<lambda>k. k # ancestors k) (map fst fs)))"
      "entryName p \<noteq> []" "entryName p \<noteq> ''.''" "entryName p \<noteq> ''..''"
      "path_join d (entryName p) = p" "f = entryName p"
    unfolding readdirSync_def by auto
  from p(1) have "existsSync fs p" by (simp only: existsSync_candidates)
  with p(2-6) show "f \<noteq> [] \<and> f \<noteq> ''.'' \<and> f \<noteq> ''..'' \<and> entryName (path_join d f) = f
     \<and> existsSync fs (path_join d f)" by simp
next
  assume a: "f \<noteq> [] \<and> f \<noteq> ''.'' \<and> f \<noteq> ''..'' \<and> entryName (path_join d f) = f
     \<and> existsSync fs (path_join d f)"
  let ?p = "path_join d f"
  from a have "?p \<in> set (concat (map (\<lambda>k. k # ancestors k) (map fst fs)))"
    by (simp only: existsSync_candidates)
  moreover from a have "entryName ?p \<noteq> [] \<and> entryName ?p \<noteq> ''.'' \<and> entryName ?p \<noteq> ''..''
      \<and> path_join d (entryName ?p) = ?p" by simp
  ultimately have "?p \<in> set (filter (\<lambda>p. entryName p \<noteq> [] \<and> entryName p \<noteq> ''.''
        \<and> entryName p \<noteq> ''..'' \<and> path_join d (entryName p) = p)
      (concat (map (\<lambda>k. k # ancestors k) (map fst fs))))"
    by simp
  then have "entryName ?p \<in> set (readdirSync fs d)"
    unfolding readdirSync_def by (simp only: set_remdups set_map) (rule imageI)
  with a show "f \<in> set (readdirSync fs d)" by simp
qed

lemma readdirSync_entry:
  assumes "f \<in> set (readdirSync fs d)"
  shows "existsSync fs (path_join d f)" and "entryName (path_join d f) = f"
    and "f \<noteq> []" and "CHR ''/'' \<notin> set f"
proof -
  from assms show "existsSync fs (path_join d f)" and en: "entryName (path_join d f) = f"
    and "f \<noteq> []"
    unfolding readdirSync_iff by simp_all
  from entryName_no_sep[of "path_join d f"] en show "CHR ''/'' \<notin> set f" by simp
qed

lemma readdirSync_distinct: "distinct (readdirSync fs d)"
  by (simp add: readdirSync_def)

lemma readdirSync_inj: "inj_on (path_join d) (set (readdirSync fs d))"
proof (rule inj_onI)
  fix f g
  assume fin: "f \<in> set (readdirSync fs d)" and gin: "g \<in> set (readdirSync fs d)"
    and eq: "path_join d f = path_join d g"
  have "f = entryName (path_join d f)"
    using readdirSync_entry(2)[OF fin] by simp
  also have "\<dots> = entryName (path_join d g)"
    by (simp only: eq)
  also have "\<dots> = g"
    using readdirSync_entry(2)[OF gin] by simp
  finally show "f = g" .
qed

lemma readdirSync_mono:
  assumes "dom (map_of fs') \<subseteq> dom (map_of fs)"
  shows "set (readdirSync fs' d) \<subseteq> set (readdirSync fs d)"
proof
  fix f
  assume "f \<in> set (readdirSync fs' d)"
  then show "f \<in> set (readdirSync fs d)"
    unfolding readdirSync_iff using existsSync_mono[OF assms] by blast
qed

lemma normalize_absolute:
  assumes "isAbsolute p"
  shows "normalize p \<noteq> [] \<and> hd (normalize p) = CHR ''/''"
  using assms by (simp add: normalize_def Let_def isAbsolute_def)

lemma path_join_absolute:
  assumes "isAbsolute a"
  shows "path_join a b \<noteq> [] \<and> hd (path_join a b) = CHR ''/''"
proof -
  from assms have "isAbsolute (if b = [] then a else a @ ''/'' @ b)"
    by (auto simp: isAbsolute_def)
  from normalize_absolute[OF this] assms show ?thesis
    by (auto simp: path_join_def Let_def isAbsolute_def)
qed

subsection \<open>The task "Create release dir"\<close>

lemma cleanFiles_map_le: "map_of (snd (cleanFiles bd ips xs fs)) \<subseteq>\<^sub>m map_of fs"
proof (induction xs arbitrary: fs)
  case Nil
  show ?case by simp
next
  case (Cons x xs)
  show ?case
  proof (cases "x \<in> set ips")
    case True
    with Cons.IH[of fs] show ?thesis by simp
  next
    case False
    show ?thesis
    proof (cases "unlinkSync fs (path_join bd x)")
      case (Inl err)
      with False show ?thesis by simp
    next
      case (Inr fs1)
      then have "fs1 = AList.delete (path_join bd x) fs" by (simp add: unlinkSync_success)
      then have "map_of fs1 \<subseteq>\<^sub>m map_of fs" by (simp add: delete_map_le)
      with Cons.IH[of fs1] have "map_of (snd (cleanFiles bd ips xs fs1)) \<subseteq>\<^sub>m map_of fs"
        by (rule map_le_trans)
      with False Inr show ?thesis by simp
    qed
  qed
qed

lemma cleanFiles_success:
  assumes "cleanFiles bd ips xs fs = (None, fs')"
  shows "map_of fs' =
           (\<lambda>p. if p \<in> path_join bd ` (set xs - set ips) then None else map_of fs p)"
    and "\<forall>x \<in> set xs - set ips. \<not> isDirectory fs' (path_join bd x)"
  using assms
proof (induction xs arbitrary: fs)
  case Nil
  {
    case 1
    then show ?case by simp
  next
    case 2
    show ?case by simp
  }
next
  case (Cons x xs)
  {
    case 1
    show ?case
    proof (cases "x \<in> set ips")
      case True
      with 1 have "cleanFiles bd ips xs fs = (None, fs')" by simp
      from Cons.IH(1)[OF this] True show ?thesis by (auto simp: fun_eq_iff)
    next
      case False
      with 1 obtain fs1 where un: "unlinkSync fs (path_join bd x) = Inr fs1"
        and tail: "cleanFiles bd ips xs fs1 = (None, fs')"
        by (auto split: sum.splits)
      from un have "map_of fs1 = (map_of fs)(path_join bd x := None)"
        by (simp add: unlinkSync_success delete_conv')
      with Cons.IH(1)[OF tail] False show ?thesis by (auto simp: fun_eq_iff)
    qed
  next
    case 2
    show ?case
    proof (cases "x \<in> set ips")
      case True
      with 2 have "cleanFiles bd ips xs fs = (None, fs')" by simp
      from Cons.IH(2)[OF this] True show ?thesis by auto
    next
      case False
      with 2 obtain fs1 where un: "unlinkSync fs (path_join bd x) = Inr fs1"
        and tail: "cleanFiles bd ips xs fs1 = (None, fs')"
        by (auto split: sum.splits)
      from un have nd: "\<not> isDirectory fs (path_join bd x)"
        and fs1: "fs1 = AList.delete (path_join bd x) fs"
        by (simp_all add: unlinkSync_success)
      from cleanFiles_map_le[of bd ips xs fs1] tail have "map_of fs' \<subseteq>\<^sub>m map_of fs1" by simp
      moreover from fs1 have "map_of fs1 \<subseteq>\<^sub>m map_of fs" by (simp add: delete_map_le)
      ultimately have "map_of fs' \<subseteq>\<^sub>m map_of fs" by (rule map_le_trans)
      with nd have "\<not> isDirectory fs' (path_join bd x)" by (auto dest: isDirectory_mono)
      with Cons.IH(2)[OF tail] show ?thesis by auto
    qed
  }
qed

lemma cleanFiles_flat:
  assumes "distinct xs" and "inj_on (path_join bd) (set xs)"
      and "\<forall>x \<in> set xs - set ips. isFile fs (path_join bd x) \<and> \<not> isDirectory fs (path_join bd x)"
  shows "fst (cleanFiles bd ips xs fs) = None"
  using assms
proof (induction xs arbitrary: fs)
  case Nil
  then show ?case by simp
next
  case (Cons x xs)
  from Cons.prems have d: "distinct xs" and i: "inj_on (path_join bd) (set xs)"
    and xn: "x \<notin> set xs" by (auto simp: inj_on_def)
  show ?case
  proof (cases "x \<in> set ips")
    case True
    from Cons.prems(3) have "\<forall>y \<in> set xs - set ips.
        isFile fs (path_join bd y) \<and> \<not> isDirectory fs (path_join bd y)" by simp
    from Cons.IH[OF d i this] True show ?thesis by simp
  next
    case False
    let ?fs = "AList.delete (path_join bd x) fs"
    from Cons.prems(3) False have "isFile fs (path_join bd x)" "\<not> isDirectory fs (path_join bd x)"
      by simp_all
    then have un: "unlinkSync fs (path_join bd x) = Inr ?fs"
      by (simp add: unlinkSync_success)
    have ne: "path_join bd y \<noteq> path_join bd x" if "y \<in> set xs" for y
      using that Cons.prems(2) xn by (auto simp: inj_on_def)
    have "\<forall>y \<in> set xs - set ips. isFile ?fs (path_join bd y) \<and> \<not> isDirectory ?fs (path_join bd y)"
    proof
      fix y
      assume y: "y \<in> set xs - set ips"
      with Cons.prems(3) have f: "isFile fs (path_join bd y)"
        and nd: "\<not> isDirectory fs (path_join bd y)" by simp_all
      from f ne[of y] y have "isFile ?fs (path_join bd y)"
        by (simp add: isFile_iff delete_conv')
      moreover from nd have "\<not> isDirectory ?fs (path_join bd y)"
        using isDirectory_mono[OF delete_map_le] by blast
      ultimately show "isFile ?fs (path_join bd y) \<and> \<not> isDirectory ?fs (path_join bd y)" ..
    qed
    from Cons.IH[OF d i this] False un show ?thesis by simp
  qed
qed
lemma createReleaseDir_mkdir_error:
  "mkdirSync (files s) (buildDir opts) = Inl err \<Longrightarrow> createReleaseDir opts l s = (Some err, s)"
  by (simp add: createReleaseDir_def)

lemma createReleaseDir_made:
  assumes "mkdirSync (files s) (buildDir opts) = Inr fs0"
  shows "createReleaseDir opts l s =
           (fst (cleanFiles (buildDir opts) (expectedImagePaths l)
                   (readdirSync fs0 (buildDir opts)) fs0),
            s\<lparr>files := snd (cleanFiles (buildDir opts) (expectedImagePaths l)
                   (readdirSync fs0 (buildDir opts)) fs0)\<rparr>)"
  using assms by (simp add: createReleaseDir_def Let_def split: prod.splits)

lemma createReleaseDir_success:
  assumes "createReleaseDir opts l s = (None, s1)"
  shows "\<exists>fs0. mkdirSync (files s) (buildDir opts) = Inr fs0
           \<and> map_of (files s1) =
               (\<lambda>p. if p \<in> path_join (buildDir opts) `
                            (set (readdirSync fs0 (buildDir opts)) - set (expectedImagePaths l))
                    then None else map_of fs0 p)
           \<and> (\<forall>x \<in> set (readdirSync fs0 (buildDir opts)) - set (expectedImagePaths l).
                 \<not> isDirectory (files s1) (path_join (buildDir opts) x))"
proof (cases "mkdirSync (files s) (buildDir opts)")
  case (Inl err)
  with assms show ?thesis by (simp add: createReleaseDir_mkdir_error)
next
  case (Inr fs0)
  let ?c = "cleanFiles (buildDir opts) (expectedImagePaths l) (readdirSync fs0 (buildDir opts)) fs0"
  from assms createReleaseDir_made[OF Inr, of l]
  have "fst ?c = None" and f1: "files s1 = snd ?c" by auto
  then have "?c = (None, files s1)" by (metis prod.collapse)
  from cleanFiles_success[OF this] Inr show ?thesis by blast
qed

lemma createReleaseDir_flat:
  assumes "mkdirSync (files s) (buildDir opts) = Inr fs0"
      and "\<forall>f \<in> set (readdirSync fs0 (buildDir opts)) - set (expectedImagePaths l).
             \<not> isDirectory fs0 (path_join (buildDir opts) f)"
  shows "fst (createReleaseDir opts l s) = None"
proof -
  let ?bd = "buildDir opts"
  have "\<forall>x \<in> set (readdirSync fs0 ?bd) - set (expectedImagePaths l).
          isFile fs0 (path_join ?bd x) \<and> \<not> isDirectory fs0 (path_join ?bd x)"
  proof
    fix x
    assume x: "x \<in> set (readdirSync fs0 ?bd) - set (expectedImagePaths l)"
    with assms(2) have nd: "\<not> isDirectory fs0 (path_join ?bd x)" by blast
    from x have "existsSync fs0 (path_join ?bd x)" by (simp add: readdirSync_entry)
    with nd show "isFile fs0 (path_join ?bd x) \<and> \<not> isDirectory fs0 (path_join ?bd x)"
      by (simp add: existsSync_def)
  qed
  from cleanFiles_flat[OF readdirSync_distinct readdirSync_inj this]
  show ?thesis by (simp add: createReleaseDir_made[OF assms(1)])
qed

lemma createReleaseDir_emptied:
  assumes "createReleaseDir opts l s = (None, s1)"
  shows "set (readdirSync (files s1) (buildDir opts)) \<subseteq> set (expectedImagePaths l)"
proof
  fix f
  let ?q = "path_join (buildDir opts) f"
  assume f: "f \<in> set (readdirSync (files s1) (buildDir opts))"
  from createReleaseDir_success[OF assms] obtain fs0
    where m: "map_of (files s1) =
               (\<lambda>p. if p \<in> path_join (buildDir opts) `
                            (set (readdirSync fs0 (buildDir opts)) - set (expectedImagePaths l))
                    then None else map_of fs0 p)"
      and nd: "\<forall>x \<in> set (readdirSync fs0 (buildDir opts)) - set (expectedImagePaths l).
                 \<not> isDirectory (files s1) (path_join (buildDir opts) x)"
    by blast
  from m have "dom (map_of (files s1)) \<subseteq> dom (map_of fs0)"
    by (auto split: if_splits)
  from readdirSync_mono[OF this] f have f0: "f \<in> set (readdirSync fs0 (buildDir opts))" by blast
  show "f \<in> set (expectedImagePaths l)"
  proof (rule ccontr)
    assume "f \<notin> set (expectedImagePaths l)"
    with f0 have x: "f \<in> set (readdirSync fs0 (buildDir opts)) - set (expectedImagePaths l)"
      by simp
    with nd have "\<not> isDirectory (files s1) ?q" by blast
    moreover from x m have "map_of (files s1) ?q = None" by auto
    then have "\<not> isFile (files s1) ?q" by (simp add: isFile_iff)
    ultimately have "\<not> existsSync (files s1) ?q" by (simp add: existsSync_def)
    with readdirSync_entry(1)[OF f] show False by simp
  qed
qed

lemma createReleaseDir_kept:
  assumes "createReleaseDir opts l s = (None, s1)"
      and "f \<in> set (readdirSync (files s) (buildDir opts))"
  shows "isFile (files s1) (path_join (buildDir opts) f) \<longleftrightarrow>
           f \<in> set (expectedImagePaths l) \<and> isFile (files s) (path_join (buildDir opts) f)"
    and "f \<in> set (expectedImagePaths l) \<Longrightarrow> isFile (files s) (path_join (buildDir opts) f)
           \<Longrightarrow> map_of (files s1) (path_join (buildDir opts) f)
                 = map_of (files s) (path_join (buildDir opts) f)"
proof -
  let ?q = "path_join (buildDir opts) f"
  from createReleaseDir_success[OF assms(1)] obtain fs0
    where mk: "mkdirSync (files s) (buildDir opts) = Inr fs0"
      and m: "map_of (files s1) =
               (\<lambda>p. if p \<in> path_join (buildDir opts) `
                            (set (readdirSync fs0 (buildDir opts)) - set (expectedImagePaths l))
                    then None else map_of fs0 p)"
    by blast
  from readdirSync_mono[OF mkdirSync_success(4)[OF mk]] assms(2)
  have f0: "f \<in> set (readdirSync fs0 (buildDir opts))" by blast
  have img: "?q \<in> path_join (buildDir opts) `
                 (set (readdirSync fs0 (buildDir opts)) - set (expectedImagePaths l))
             \<longleftrightarrow> f \<notin> set (expectedImagePaths l)"
    using f0 readdirSync_inj[of "buildDir opts" fs0] by (auto simp: inj_on_def)
  have q: "map_of (files s1) ?q = (if f \<in> set (expectedImagePaths l) then map_of fs0 ?q else None)"
    using img by (simp add: m)
  from q mkdirSync_success(3)[OF mk, of ?q]
  show "isFile (files s1) ?q \<longleftrightarrow> f \<in> set (expectedImagePaths l) \<and> isFile (files s) ?q"
    by (auto simp: isFile_iff)
  assume e: "f \<in> set (expectedImagePaths l)" and fl: "isFile (files s) ?q"
  from fl mkdirSync_success(2)[OF mk] have "?q \<noteq> resolveDir (buildDir opts)" by auto
  with mkdirSync_success(1)[OF mk] have "map_of fs0 ?q = map_of (files s) ?q" by simp
  with q e show "map_of (files s1) ?q = map_of (files s) ?q" by simp
qed

lemma exLocals_eq: "buildAndUpload_locals (exEnv exManifest) exOptions = Inr exLocals"
  by code_simp

lemma buildArchitectureTask_task:
  "task (buildArchitectureTask e opts l a) s = runBuild e (architectureBuildArgs opts l a) s"
  by (simp add: buildArchitectureTask_def buildWithBuildx_def split: prod.splits option.splits)

lemma buildArchitectureTask_skip: "\<not> skip (buildArchitectureTask e opts l a)"
  by (simp add: buildArchitectureTask_def)

lemma runBuild_success:
  assumes "runBuild e a s = (None, s')"
  shows "\<exists>c. containerBuilder e s a = ARCHIVED c
           \<and> s' = s\<lparr>builds := builds s @ [a], files := writeFileSync (files s) (destPath a) c\<rparr>"
  using assms by (auto simp: runBuild_def Let_def split: buildOutcome.splits)

lemma runBuild_frame:
  "ctx (snd (runBuild e a s)) = ctx s"
  "releaseRecord (snd (runBuild e a s)) = releaseRecord s"
  "uploads (snd (runBuild e a s)) = uploads s"
  "console (snd (runBuild e a s)) = console s"
  by (simp_all add: runBuild_def Let_def split: buildOutcome.splits)

lemma buildTasks_frame:
  assumes "t \<in> set (buildTasks e opts l)"
  shows "\<not> skip t"
    and "ctx (snd (task t s)) = ctx s"
    and "releaseRecord (snd (task t s)) = releaseRecord s"
    and "uploads (snd (task t s)) = uploads s"
    and "console (snd (task t s)) = console s"
proof -
  from assms have "\<not> skip t \<and> (\<exists>a. \<forall>s. task t s = runBuild e a s)"
    by (auto simp: buildTasks_def buildWithCompose_def buildArchitectureTask_task
          buildArchitectureTask_skip split: option.splits)
  then obtain a where a: "\<not> skip t" "\<And>s. task t s = runBuild e a s" by blast
  from a(1) show "\<not> skip t" .
  from a(2) show "ctx (snd (task t s)) = ctx s"
    and "releaseRecord (snd (task t s)) = releaseRecord s"
    and "uploads (snd (task t s)) = uploads s"
    and "console (snd (task t s)) = console s"
    by (simp_all add: runBuild_frame)
qed

lemma runBuilds_archs:
  assumes "runListr (map (buildArchitectureTask e opts l) archs) s = (None, s')"
  shows "builds s' = builds s @ map (architectureBuildArgs opts l) archs
         \<and> (\<forall>a \<in> set archs. isFile (files s') (destPath (architectureBuildArgs opts l a)))
         \<and> (\<forall>p. isFile (files s) p \<longrightarrow> isFile (files s') p)"
  using assms
proof (induction archs arbitrary: s)
  case Nil
  then show ?case by simp
next
  case (Cons a archs)
  let ?args = "architectureBuildArgs opts l a"
  obtain r s1 where step: "runBuild e ?args s = (r, s1)" by (cases "runBuild e ?args s")
  from Cons.prems step have r: "r = None"
    and tail: "runListr (map (buildArchitectureTask e opts l) archs) s1 = (None, s')"
    by (auto simp: buildArchitectureTask_task buildArchitectureTask_skip
          split: option.splits)
  from runBuild_success[of e ?args s s1] step r obtain c
    where c: "containerBuilder e s ?args = ARCHIVED c"
      and s1: "s1 = s\<lparr>builds := builds s @ [?args],
                       files := writeFileSync (files s) (destPath ?args) c\<rparr>"
    by auto
  from s1 have b1: "builds s1 = builds s @ [?args]"
    and e1: "isFile (files s1) (destPath ?args)"
    and m1: "\<And>p. isFile (files s) p \<Longrightarrow> isFile (files s1) p"
    by (simp_all add: isFile_write)
  from Cons.IH[OF tail] b1 c e1 m1 show ?case by auto
qed

lemma runBuilds:
  assumes "runListr (buildTasks e opts l) s = (None, s')"
  shows "builds s' = builds s @ expectedBuilds opts l
         \<and> (\<forall>a \<in> set (expectedBuilds opts l). isFile (files s') (destPath a))"
proof (cases "architectures' l")
  case None
  with assms have "runBuild e (composeBuildArgs opts l) s = (None, s')"
    by (auto simp: buildTasks_def buildWithCompose_def composeBuildArgs_def
          split: option.splits prod.splits)
  from runBuild_success[OF this] None show ?thesis
    by (auto simp: expectedBuilds_def isFile_write)
next
  case (Some archs)
  with assms have "runListr (map (buildArchitectureTask e opts l) archs) s = (None, s')"
    by (simp add: buildTasks_def)
  from runBuilds_archs[OF this] Some show ?thesis
    by (auto simp: expectedBuilds_def)
qed

lemma uploadTask_frame:
  "builds (snd (task (uploadTask e opts l) s)) = builds s"
  "releaseRecord (snd (task (uploadTask e opts l) s)) = releaseRecord s"
  "console (snd (task (uploadTask e opts l) s)) = console s"
  "isFile (files s) p \<Longrightarrow> isFile (files (snd (task (uploadTask e opts l) s))) p"
  by (auto simp: uploadTask_def uploadToSwarmTask_def uploadToIpfsTask_def copyLegacyImage_def
        ipfsUpload_def andThen_def fsStep_def Let_def copyFileSync_success isFile_iff update_conv'
        split: sum.splits option.splits prod.splits)

lemma saveUploadResults_frame:
  "files (snd (saveUploadResults e opts l s)) = files s"
  "builds (snd (saveUploadResults e opts l s)) = builds s"
  "uploads (snd (saveUploadResults e opts l s)) = uploads s"
  "releaseHash (ctx (snd (saveUploadResults e opts l s))) = releaseHash (ctx s)"
  by (auto simp: saveUploadResults_def andThen_def addReleaseRecord_def tryPruneCache_def
        split: sum.splits option.splits prod.splits)

lemma saveUploadResults_success:
  assumes "saveUploadResults e opts l s = (None, s')"
  shows "releaseRecord s' =
           (case releaseHash (ctx s) of
              None \<Rightarrow> releaseRecord s
            | Some address \<Rightarrow>
                (releaseRecord s)((dir opts, version (manifest l)) \<mapsto>
                  \<lparr>hash = address,
                   uploadedTo = (if uploadToSwarm opts then swarmProvider opts
                                 else ipfsProvider opts)\<rparr>))"
    and "releaseMultiHash (ctx s') = releaseHash (ctx s)"
  using assms
  by (auto simp: saveUploadResults_def andThen_def addReleaseRecord_def tryPruneCache_def
        split: sum.splits option.splits prod.splits)

lemma saveUploadResults_no_address:
  assumes "releaseHash (ctx s) = None"
  shows "fst (saveUploadResults e opts l s) = None"
    and "releaseRecord (snd (saveUploadResults e opts l s)) = releaseRecord s"
    and "releaseMultiHash (ctx (snd (saveUploadResults e opts l s))) = None"
  using assms
  by (auto simp: saveUploadResults_def andThen_def addReleaseRecord_def tryPruneCache_def
        split: sum.splits option.splits prod.splits)

lemma uploadTask_skip: "skip (uploadTask e opts l) = truthyFlag (skipUpload opts)"
  by (simp add: uploadTask_def)

lemma before_save_success:
  assumes "runListr (tasksBeforeSave e opts l) s = (None, s4)"
  shows "\<exists>s1 s2 s3. createReleaseDir opts l s = (None, s1)
           \<and> copyFilesAndValidate e opts l s1 = (None, s2)
           \<and> runListr (buildTasks e opts l) s2 = (None, s3)
           \<and> runListr [uploadTask e opts l] s3 = (None, s4)"
proof -
  obtain r1 s1 where a: "createReleaseDir opts l s = (r1, s1)"
    by (cases "createReleaseDir opts l s")
  obtain r2 s2 where b: "copyFilesAndValidate e opts l s1 = (r2, s2)"
    by (cases "copyFilesAndValidate e opts l s1")
  obtain r3 s3 where c: "runListr (buildTasks e opts l) s2 = (r3, s3)"
    by (cases "runListr (buildTasks e opts l) s2")
  from assms a have r1: "r1 = None"
    by (cases r1) (simp_all add: tasksBeforeSave_def)
  from assms a b r1 have r2: "r2 = None"
    by (cases r2) (simp_all add: tasksBeforeSave_def)
  from assms a b c r1 r2 have r3: "r3 = None"
    by (cases r3) (simp_all add: tasksBeforeSave_def runListr_append)
  from assms a b c r1 r2 r3 have "runListr [uploadTask e opts l] s3 = (None, s4)"
    by (simp add: tasksBeforeSave_def runListr_append)
  with a b c r1 r2 r3 show ?thesis by blast
qed

lemma upload_step_cases:
  assumes "runListr [uploadTask e opts l] s3 = (r, s4)"
  shows "s4 = s3 \<or> s4 = snd (task (uploadTask e opts l) s3)"
  using assms by (auto split: if_splits option.splits prod.splits)

lemma run_success_builds:
  assumes "buildAndUpload_locals e opts = Inr l"
      and "runBuildAndUpload e opts s = (None, s')"
  shows "builds s' = builds s @ expectedBuilds opts l
         \<and> (\<forall>a \<in> set (expectedBuilds opts l). isFile (files s') (destPath a))"
proof -
  from assms obtain s4 where pre: "runListr (tasksBeforeSave e opts l) s = (None, s4)"
    and save: "saveUploadResults e opts l s4 = (None, s')"
    unfolding run_success by auto
  from before_save_success[OF pre] obtain s1 s2 s3
    where a: "createReleaseDir opts l s = (None, s1)"
      and b: "copyFilesAndValidate e opts l s1 = (None, s2)"
      and c: "runListr (buildTasks e opts l) s2 = (None, s3)"
      and d: "runListr [uploadTask e opts l] s3 = (None, s4)"
    by blast
  from a rest_createReleaseDir[of opts l s] have b1: "builds s1 = builds s"
    by (simp add: rest_def)
  from b rest_copyFilesAndValidate[of e opts l s1] have b2: "builds s2 = builds s1"
    by (simp add: rest_def)
  note b3 = runBuilds[OF c]
  from upload_step_cases[OF d] have b4: "builds s4 = builds s3"
    and e4: "\<And>p. isFile (files s3) p \<Longrightarrow> isFile (files s4) p"
    by (auto simp: uploadTask_frame)
  from save saveUploadResults_frame(1,2)[of e opts l s4]
  have b5: "builds s' = builds s4" and f5: "files s' = files s4" by simp_all
  from b1 b2 b3 b4 b5 e4 f5 show ?thesis by auto
qed

lemma exLocalsArchs_eq:
  "buildAndUpload_locals (exEnv exManifestArchs) exOptions = Inr exLocalsArchs"
  by code_simp

lemma exLocals_upstream_eq:
  "buildAndUpload_locals
     ((exEnv exManifest)\<lparr>parseComposeUpstreamVersion := (\<lambda>_. Inr (Some ''2.0'')),
                          UPSTREAM_VERSION := Some ''3.0''\<rparr>) exOptions
   = Inr (exLocals\<lparr>manifest := exManifest\<lparr>upstreamVersion := Some ''2.0''\<rparr>\<rparr>)"
  by code_simp

lemma exState_fields:
  "files (exState fs) = fs"
  "ctx (exState fs) = \<lparr>releaseHash = None, releaseMultiHash = None\<rparr>"
  "releaseRecord (exState fs) = Map.empty"
  "builds (exState fs) = []"
  "uploads (exState fs) = []"
  "console (exState fs) = []"
  by (simp_all add: exState_def)

lemma splitSep_not_Nil: "splitSep p \<noteq> []"
  by (induction p) (auto split: list.splits)

lemma splitSep_no_sep: "CHR ''/'' \<notin> set w \<Longrightarrow> splitSep w = [w]"
  by (induction w) auto

lemma splitSep_snoc:
  assumes "CHR ''/'' \<notin> set w"
  shows "splitSep (J @ w) = butlast (splitSep J) @ [last (splitSep J) @ w]"
proof (induction J)
  case Nil
  from assms show ?case by (simp add: splitSep_no_sep)
next
  case (Cons c J)
  obtain s ss where J: "splitSep J = s # ss"
    using splitSep_not_Nil[of J] by (cases "splitSep J") auto
  show ?case
  proof (cases "c = CHR ''/''")
    case True
    with Cons J show ?thesis by simp
  next
    case False
    with Cons J show ?thesis by (cases ss) auto
  qed
qed

lemma normalizeSegments_snoc:
  assumes "x \<noteq> []" "x \<noteq> ''.''" "x \<noteq> ''..''"
  shows "normalizeSegments a stk (S @ [x]) = normalizeSegments a stk S @ [x]"
  using assms by (induction S arbitrary: stk) auto

lemma joinSep_snoc: "joinSep (N @ [x]) = (if N = [] then x else joinSep N @ ''/'' @ x)"
  by (induction N rule: joinSep.induct) auto

lemma splitSep_trailing_shape: "\<exists>ss. splitSep (x @ ''/'') = ss @ [[]] \<and> ss \<noteq> []"
proof (induction x)
  case Nil
  show ?case by (rule exI[of _ "[[]]"]) simp
next
  case (Cons c x)
  then obtain s ss where ss: "splitSep (x @ ''/'') = (s # ss) @ [[]]"
    by (metis list.exhaust)
  show ?case
  proof (cases "c = CHR ''/''")
    case True
    with ss show ?thesis by (intro exI[of _ "[] # s # ss"]) simp
  next
    case False
    with ss show ?thesis by (intro exI[of _ "(c # s) # ss"]) simp
  qed
qed

lemma splitSep_trailing: "last (splitSep (x @ ''/'')) = []"
  using splitSep_trailing_shape[of x] by auto

lemma normalize_suffix_shape:
  "\<exists>C. (last (splitSep J) = [] \<longrightarrow> C = [] \<or> last C = CHR ''/'')
       \<and> (\<forall>w. CHR ''/'' \<notin> set w \<and> 3 \<le> length w \<longrightarrow> normalize (J @ w) = C @ w)"
proof -
  define a where "a = (J \<noteq> [] \<and> hd J = CHR ''/'')"
  define N where "N = normalizeSegments (\<not> a) [] (butlast (splitSep J))"
  define z where "z = last (splitSep J)"
  define C where "C = (if a then ''/'' else []) @ (if N = [] then z else joinSep N @ ''/'' @ z)"
  have "normalize (J @ w) = C @ w" if w: "CHR ''/'' \<notin> set w" "3 \<le> length w" for w
  proof -
    from w have ne: "w \<noteq> []" by auto
    with w(1) have hdw: "hd w \<noteq> CHR ''/''" and lastw: "last w \<noteq> CHR ''/''"
      by (metis hd_in_set, metis last_in_set)
    have ab: "isAbsolute (J @ w) = a"
      using ne hdw by (cases J) (auto simp: isAbsolute_def a_def)
    from w(2) have proper: "z @ w \<noteq> []" "z @ w \<noteq> ''.''" "z @ w \<noteq> ''..''"
      by (auto dest: arg_cong[of _ _ length])
    have segs: "normalizeSegments (\<not> a) [] (splitSep (J @ w)) = N @ [z @ w]"
      unfolding N_def z_def
      by (simp only: splitSep_snoc[OF w(1)] normalizeSegments_snoc[OF proper[unfolded z_def]])
    have res: "joinSep (N @ [z @ w]) = (if N = [] then z @ w else joinSep N @ ''/'' @ z @ w)"
      by (rule joinSep_snoc)
    from proper(1) res have resne: "joinSep (N @ [z @ w]) \<noteq> []" by auto
    have "normalize (J @ w) = (if a then ''/'' else []) @ joinSep (N @ [z @ w])"
      using ne lastw resne
      by (simp add: normalize_def Let_def ab segs del: joinSep.simps)
    with res show ?thesis by (auto simp: C_def)
  qed
  moreover have "C = [] \<or> last C = CHR ''/''" if "last (splitSep J) = []"
    using that by (auto simp: C_def z_def)
  ultimately show ?thesis by blast
qed

lemma normalize_suffix:
  "\<exists>C. \<forall>w. CHR ''/'' \<notin> set w \<and> 3 \<le> length w \<longrightarrow> normalize (J @ w) = C @ w"
  using normalize_suffix_shape[of J] by blast

lemma path_join_suffix:
  "\<exists>C. \<forall>w. CHR ''/'' \<notin> set w \<and> 3 \<le> length w \<longrightarrow> path_join bd (P @ w) = C @ w"
proof -
  let ?J = "if bd = [] then P else bd @ ''/'' @ P"
  from normalize_suffix[of ?J] obtain C
    where C: "\<And>w. CHR ''/'' \<notin> set w \<Longrightarrow> 3 \<le> length w \<Longrightarrow> normalize (?J @ w) = C @ w"
    by blast
  have "path_join bd (P @ w) = C @ w" if w: "CHR ''/'' \<notin> set w" "3 \<le> length w" for w
  proof -
    from w(2) have "w \<noteq> []" by auto
    then have "path_join bd (P @ w) = normalize (?J @ w)"
      by (simp add: path_join_def Let_def)
    with C[OF w] show ?thesis by simp
  qed
  then show ?thesis by blast
qed

lemma getArchTag_no_sep: "CHR ''/'' \<notin> set (getArchTag a)"
  by (auto simp: getArchTag_def)

lemma image_paths_distinct:
  "path_join bd (getImagePath n v a) = path_join bd (getImagePath n v b)
     \<longleftrightarrow> getArchTag a = getArchTag b"
proof -
  from path_join_suffix[of bd "n @ ''_'' @ v @ ''_''"] obtain C
    where C: "\<And>w. CHR ''/'' \<notin> set w \<Longrightarrow> 3 \<le> length w
                \<Longrightarrow> path_join bd ((n @ ''_'' @ v @ ''_'') @ w) = C @ w"
    by blast
  have "path_join bd (getImagePath n v x) = C @ getArchTag x @ ''.txz''" for x
    using C[of "getArchTag x @ ''.txz''"] getArchTag_no_sep[of x]
    by (simp add: getImagePath_def)
  then show ?thesis by simp
qed

lemma legacy_path_not_image_path:
  "path_join bd (getLegacyImagePath n v) \<noteq> path_join bd (getImagePath n v a)"
proof -
  from path_join_suffix[of bd "n @ ''_'' @ v"] obtain C
    where C: "\<And>w. CHR ''/'' \<notin> set w \<Longrightarrow> 3 \<le> length w
                \<Longrightarrow> path_join bd ((n @ ''_'' @ v) @ w) = C @ w"
    by blast
  have "path_join bd (getImagePath n v a) = C @ ''_'' @ getArchTag a @ ''.txz''"
    using C[of "''_'' @ getArchTag a @ ''.txz''"] getArchTag_no_sep[of a]
    by (simp add: getImagePath_def)
  moreover have "path_join bd (getLegacyImagePath n v) = C @ ''.tar.xz''"
    using C[of "''.tar.xz''"] by (simp add: getLegacyImagePath_def)
  ultimately show ?thesis by simp
qed


lemma distinct_map_transfer:
  assumes "distinct (map g xs)" and "\<And>x y. f x = f y \<Longrightarrow> g x = g y"
  shows "distinct (map f xs)"
proof -
  from assms(1) have d: "distinct xs" and i: "inj_on g (set xs)"
    by (simp_all add: distinct_map)
  have "inj_on f (set xs)"
  proof (rule inj_onI)
    fix x y
    assume "x \<in> set xs" "y \<in> set xs" "f x = f y"
    with assms(2)[of x y] i show "x = y" by (auto dest: inj_onD)
  qed
  with d show ?thesis by (simp add: distinct_map)
qed

lemma path_join_bare:
  assumes "CHR ''/'' \<notin> set f" and "3 \<le> length f"
  shows "entryName (path_join bd f) = f" and "last (path_join bd f) = last f"
proof -
  let ?J = "if bd = [] then [] else bd @ ''/''"
  have z: "last (splitSep ?J) = []" by (simp add: splitSep_trailing)
  from normalize_suffix_shape[of ?J] z obtain C
    where shape: "C = [] \<or> last C = CHR ''/''"
      and C: "\<And>w. CHR ''/'' \<notin> set w \<Longrightarrow> 3 \<le> length w \<Longrightarrow> normalize (?J @ w) = C @ w"
    by blast
  from assms(2) have ne: "f \<noteq> []" by auto
  then have "path_join bd f = normalize (?J @ f)" by (simp add: path_join_def Let_def)
  with C[OF assms] have eq: "path_join bd f = C @ f" by simp
  from ne eq show "last (path_join bd f) = last f" by simp
  have "takeWhile (\<lambda>c. c \<noteq> CHR ''/'') (rev C) = []"
  proof (cases C rule: rev_cases)
    case Nil
    then show ?thesis by simp
  next
    case (snoc ys y)
    with shape show ?thesis by simp
  qed
  moreover have "takeWhile (\<lambda>c. c \<noteq> CHR ''/'') (rev f @ rev C)
                   = rev f @ takeWhile (\<lambda>c. c \<noteq> CHR ''/'') (rev C)"
    by (rule takeWhile_append2) (use assms(1) in auto)
  ultimately have "takeWhile (\<lambda>c. c \<noteq> CHR ''/'') (rev f @ rev C) = rev f"
    by simp
  with eq show "entryName (path_join bd f) = f" by (simp add: entryName_def)
qed

lemma createReleaseDir_bare_absent:
  assumes "createReleaseDir opts l s = (None, s1)"
      and "CHR ''/'' \<notin> set f" and "3 \<le> length f" and "f \<notin> set (expectedImagePaths l)"
  shows "map_of (files s1) (path_join (buildDir opts) f) = None"
proof -
  let ?q = "path_join (buildDir opts) f"
  from createReleaseDir_success[OF assms(1)] obtain fs0
    where m: "map_of (files s1) =
               (\<lambda>p. if p \<in> path_join (buildDir opts) `
                            (set (readdirSync fs0 (buildDir opts)) - set (expectedImagePaths l))
                    then None else map_of fs0 p)"
    by blast
  show ?thesis
  proof (cases "map_of fs0 ?q = None")
    case True
    with m show ?thesis by simp
  next
    case False
    then have "existsSync fs0 ?q" unfolding existsSync_iff by auto
    moreover from assms(3) have "f \<noteq> []" "f \<noteq> ''.''" "f \<noteq> ''..''" by auto
    ultimately have "f \<in> set (readdirSync fs0 (buildDir opts))"
      unfolding readdirSync_iff using path_join_bare(1)[OF assms(2,3), of "buildDir opts"]
      by simp
    with assms(4) m show ?thesis by auto
  qed
qed

lemma copyAdditionalFiles_other:
  assumes "q \<notin> (\<lambda>rf. path_join (buildDir opts) (defaultName rf)) ` set rfs"
  shows "map_of (files (snd (copyAdditionalFiles e opts rfs s))) q = map_of (files s) q"
  using assms
proof (induction rfs arbitrary: s)
  case Nil
  show ?case by simp
next
  case (Cons rf rfs)
  then have IH: "\<And>s. map_of (files (snd (copyAdditionalFiles e opts rfs s))) q = map_of (files s) q"
    and ne: "q \<noteq> path_join (buildDir opts) (defaultName rf)"
    by auto
  show ?case
    using IH ne
    by (auto simp: copyFileSync_success update_conv' split: sum.splits option.splits)
qed

lemma copyFilesAndValidate_other:
  assumes "q \<notin> set (copyTargets opts l)"
  shows "map_of (files (snd (copyFilesAndValidate e opts l s))) q = map_of (files s) q"
proof -
  let ?p = "\<lambda>s. map_of (files s) q"
  from assms have ne: "q \<noteq> path_join (dir opts) (defaultName releaseFiles_compose)"
      "q \<noteq> avatarBuildPath l"
      "q \<noteq> path_join (buildDir opts) (defaultName releaseFiles_compose)"
      "q \<noteq> path_join (buildDir opts) (defaultName releaseFiles_manifest)"
    and add: "q \<notin> (\<lambda>rf. path_join (buildDir opts) (defaultName rf)) ` set additionalFiles"
    by (auto simp: copyTargets_def)
  have w1: "?p (snd (writeCompose (dir opts) (composeForBuild l) s)) = ?p s" for s
    using ne(1) by (simp add: writeCompose_def writeFileSync_def update_conv')
  have w2: "?p (snd (fsStep (\<lambda>fs. copyFileSync fs (avatarRootPath l) (avatarBuildPath l)) s)) = ?p s" for s
    using ne(2)
    by (auto simp: fsStep_def copyFileSync_success update_conv' split: sum.splits option.splits)
  have w3: "?p (snd (writeCompose (buildDir opts) (composeForRelease l) s)) = ?p s" for s
    using ne(3) by (simp add: writeCompose_def writeFileSync_def update_conv')
  have w4: "?p (snd (writeManifest (buildDir opts) (manifest l) s)) = ?p s" for s
    using ne(4) by (simp add: writeManifest_def writeFileSync_def update_conv')
  have w5: "?p (snd (checkStep (validateManifest e (manifest l) True) s)) = ?p s" for s
    by (simp add: checkStep_def split: sum.splits)
  have w6: "?p (snd (copyAdditionalFiles e opts additionalFiles s)) = ?p s" for s
    by (rule copyAdditionalFiles_other[OF add])
  show ?thesis
    unfolding copyFilesAndValidate_def
    by (intro andThen_frame[where p = ?p] w1 w2 w3 w4 w5 w6)
qed

lemma buildTasks_runBuild:
  assumes "t \<in> set (buildTasks e opts l)"
  shows "\<not> skip t \<and> (\<exists>a \<in> set (expectedBuilds opts l). \<forall>s. task t s = runBuild e a s)"
  using assms
  by (auto simp: buildTasks_def buildWithCompose_def buildArchitectureTask_task
        buildArchitectureTask_skip expectedBuilds_def composeBuildArgs_def
        split: option.splits)

lemma runBuild_other:
  assumes "q \<noteq> destPath a"
  shows "map_of (files (snd (runBuild e a s))) q = map_of (files s) q"
  using assms
  by (simp add: runBuild_def Let_def writeFileSync_def update_conv' split: buildOutcome.splits)

lemma buildTasks_other:
  assumes "q \<notin> destPath ` set (expectedBuilds opts l)"
  shows "map_of (files (snd (runListr (buildTasks e opts l) s))) q = map_of (files s) q"
proof (rule runListr_frame[where f = "\<lambda>s. map_of (files s) q"])
  fix t s
  assume "t \<in> set (buildTasks e opts l)"
  from buildTasks_runBuild[OF this] obtain a
    where a: "a \<in> set (expectedBuilds opts l)" "\<And>s. task t s = runBuild e a s"
    by blast
  from a(1) assms have "q \<noteq> destPath a" by auto
  with a(2) show "map_of (files (snd (task t s))) q = map_of (files s) q"
    by (simp add: runBuild_other)
qed

lemma uploadTask_other:
  assumes "uploadToSwarm opts \<or> q \<noteq> imagePathLegacy l"
  shows "map_of (files (snd (task (uploadTask e opts l) s))) q = map_of (files s) q"
  using assms
  by (auto simp: uploadTask_def uploadToSwarmTask_def uploadToIpfsTask_def copyLegacyImage_def
        ipfsUpload_def andThen_def fsStep_def Let_def copyFileSync_success update_conv'
        split: sum.splits option.splits prod.splits)

lemma absent_before_upload:
  assumes "createReleaseDir opts l s = (None, s1)"
      and "copyFilesAndValidate e opts l s1 = (None, s2)"
      and "runListr (buildTasks e opts l) s2 = (None, s3)"
      and "CHR ''/'' \<notin> set f" and "3 \<le> length f" and "f \<notin> set (expectedImagePaths l)"
      and "path_join (buildDir opts) f \<notin> set (copyTargets opts l)"
      and "path_join (buildDir opts) f \<notin> destPath ` set (expectedBuilds opts l)"
  shows "map_of (files s3) (path_join (buildDir opts) f) = None"
proof -
  let ?q = "path_join (buildDir opts) f"
  from createReleaseDir_bare_absent[OF assms(1,4,5,6)]
  have q1: "map_of (files s1) ?q = None" .
  from copyFilesAndValidate_other[OF assms(7), of e s1] assms(2) q1
  have q2: "map_of (files s2) ?q = None" by simp
  from buildTasks_other[OF assms(8), of e s2] assms(3) q2
  show ?thesis by simp
qed

lemma run_absent_at_end:
  assumes "buildAndUpload_locals e opts = Inr l"
      and "runBuildAndUpload e opts s = (None, s')"
      and "CHR ''/'' \<notin> set f" and "3 \<le> length f" and "f \<notin> set (expectedImagePaths l)"
      and "path_join (buildDir opts) f \<notin> set (copyTargets opts l)"
      and "path_join (buildDir opts) f \<notin> destPath ` set (expectedBuilds opts l)"
      and "uploadToSwarm opts \<or> truthyFlag (skipUpload opts)
           \<or> path_join (buildDir opts) f \<noteq> imagePathLegacy l"
  shows "map_of (files s') (path_join (buildDir opts) f) = None"
proof -
  let ?q = "path_join (buildDir opts) f"
  from assms(1,2) obtain s4 where pre: "runListr (tasksBeforeSave e opts l) s = (None, s4)"
    and save: "saveUploadResults e opts l s4 = (None, s')"
    unfolding run_success by auto
  from before_save_success[OF pre] obtain s1 s2 s3
    where a: "createReleaseDir opts l s = (None, s1)"
      and b: "copyFilesAndValidate e opts l s1 = (None, s2)"
      and c: "runListr (buildTasks e opts l) s2 = (None, s3)"
      and d: "runListr [uploadTask e opts l] s3 = (None, s4)"
    by blast
  from absent_before_upload[OF a b c assms(3-7)]
  have q3: "map_of (files s3) ?q = None" .
  have q4: "map_of (files s4) ?q = None"
  proof (cases "truthyFlag (skipUpload opts)")
    case True
    with d have "s4 = s3" by (simp add: uploadTask_skip)
    with q3 show ?thesis by simp
  next
    case False
    with d have "s4 = snd (task (uploadTask e opts l) s3)"
      by (auto simp: uploadTask_skip split: option.splits prod.splits)
    moreover from False assms(8) have "uploadToSwarm opts \<or> ?q \<noteq> imagePathLegacy l" by simp
    ultimately show ?thesis using uploadTask_other[of opts ?q l e s3] q3 by simp
  qed
  from save saveUploadResults_frame(1)[of e opts l s4] q4 show ?thesis by simp
qed

lemma getImagePath_bare:
  assumes "CHR ''/'' \<notin> set n" and "CHR ''/'' \<notin> set v"
  shows "CHR ''/'' \<notin> set (getImagePath n v a)" and "3 \<le> length (getImagePath n v a)"
    and "last (getImagePath n v a) = CHR ''z''"
  using assms getArchTag_no_sep[of a] by (auto simp: getImagePath_def)

lemma getLegacyImagePath_bare:
  assumes "CHR ''/'' \<notin> set n" and "CHR ''/'' \<notin> set v"
  shows "CHR ''/'' \<notin> set (getLegacyImagePath n v)" and "3 \<le> length (getLegacyImagePath n v)"
    and "last (getLegacyImagePath n v) = CHR ''z''"
  using assms by (auto simp: getLegacyImagePath_def)

lemma getImagePath_inj: "getImagePath n v a = getImagePath n v b \<longleftrightarrow> getArchTag a = getArchTag b"
  by (simp add: getImagePath_def)

lemma copyTargets_last:
  assumes "buildAndUpload_locals e opts = Inr l" and "t \<in> set (copyTargets opts l)"
  shows "last t \<noteq> CHR ''z''"
proof -
  from locals_manifest[OF assms(1)]
  have av: "avatarBuildPath l = path_join (buildDir opts) ''avatar.png''" by auto
  have names: "\<And>d. last (path_join d ''avatar.png'') = CHR ''g''"
    "\<And>d. last (path_join d ''docker-compose.yml'') = CHR ''l''"
    "\<And>d. last (path_join d ''dappnode_package.json'') = CHR ''n''"
    "\<And>d. last (path_join d ''setup-wizard.json'') = CHR ''n''"
    "\<And>d. last (path_join d ''setup.schema.json'') = CHR ''n''"
    "\<And>d. last (path_join d ''setup-target.json'') = CHR ''n''"
    "\<And>d. last (path_join d ''setup-ui.json'') = CHR ''n''"
    "\<And>d. last (path_join d ''disclaimer.md'') = CHR ''d''"
    "\<And>d. last (path_join d ''getting-started.md'') = CHR ''d''"
    by (simp_all add: path_join_bare(2))
  from assms(2) av names show ?thesis
    by (auto simp: copyTargets_def additionalFiles_def releaseFiles_compose_def
          releaseFiles_manifest_def releaseFiles_setupWizard_def releaseFiles_setupSchema_def
          releaseFiles_setupTarget_def releaseFiles_setupUiJson_def releaseFiles_disclaimer_def
          releaseFiles_gettingStarted_def)
qed

lemma legacy_name_not_image_path:
  "getLegacyImagePath n v \<noteq> path_join bd (getImagePath n v a)"
proof
  assume eq: "getLegacyImagePath n v = path_join bd (getImagePath n v a)"
  from path_join_suffix[of bd "n @ ''_'' @ v"] obtain C
    where C: "\<And>w. CHR ''/'' \<notin> set w \<Longrightarrow> 3 \<le> length w
                \<Longrightarrow> path_join bd ((n @ ''_'' @ v) @ w) = C @ w"
    by blast
  have "path_join bd (getImagePath n v a) = C @ ''_'' @ getArchTag a @ ''.txz''"
    using C[of "''_'' @ getArchTag a @ ''.txz''"] getArchTag_no_sep[of a]
    by (simp add: getImagePath_def)
  with eq have "rev (n @ ''_'' @ v @ ''.tar.xz'') = rev (C @ ''_'' @ getArchTag a @ ''.txz'')"
    by (simp add: getLegacyImagePath_def)
  then show False by simp
qed

lemma stale_archive_absent:
  assumes "buildAndUpload_locals e opts = Inr l"
      and "runBuildAndUpload e opts s = (None, s')"
      and "readManifest e (dir opts) = Inr m"
      and "architectures' l = Some archs"
      and "CHR ''/'' \<notin> set (name m)" and "CHR ''/'' \<notin> set (version m)"
      and "getArchTag b \<notin> getArchTag ` set archs"
  shows "map_of (files s') (path_join (buildDir opts) (getImagePath (name m) (version m) b)) = None"
proof -
  let ?f = "getImagePath (name m) (version m) b"
  let ?q = "path_join (buildDir opts) ?f"
  from locals_manifest[OF assms(1)] assms(3)
  have nm: "name (manifest l) = name m" "version (manifest l) = version m"
    and leg: "imagePathLegacy l = path_join (buildDir opts) (getLegacyImagePath (name m) (version m))"
    by (auto simp: injectUpstreamVersion_def Let_def)
  note bare = getImagePath_bare[OF assms(5,6), of b]
  have exp: "?f \<notin> set (expectedImagePaths l)"
    using assms(4,7) nm by (auto simp: expectedImagePaths_def getImagePath_inj)
  have "last ?q = CHR ''z''"
    using path_join_bare(2)[OF bare(1,2), of "buildDir opts"] bare(3) by simp
  with copyTargets_last[OF assms(1)] have ct: "?q \<notin> set (copyTargets opts l)" by blast
  have dp: "?q \<notin> destPath ` set (expectedBuilds opts l)"
    using assms(4,7) nm
    by (auto simp: expectedBuilds_def architectureBuildArgs_def image_paths_distinct)
  have lg: "?q \<noteq> imagePathLegacy l"
    using legacy_path_not_image_path[of "buildDir opts" "name m" "version m" b] leg by simp
  from run_absent_at_end[OF assms(1,2) bare(1,2) exp ct dp] lg show ?thesis by blast
qed

lemma legacy_absent_without_ipfs:
  assumes "buildAndUpload_locals e opts = Inr l"
      and "runBuildAndUpload e opts s = (None, s')"
      and "readManifest e (dir opts) = Inr m"
      and "CHR ''/'' \<notin> set (name m)" and "CHR ''/'' \<notin> set (version m)"
      and "uploadToSwarm opts \<or> truthyFlag (skipUpload opts)"
  shows "map_of (files s')
           (path_join (buildDir opts) (getLegacyImagePath (name m) (version m))) = None"
proof -
  let ?f = "getLegacyImagePath (name m) (version m)"
  let ?q = "path_join (buildDir opts) ?f"
  from locals_manifest[OF assms(1)] assms(3)
  have nm: "name (manifest l) = name m" "version (manifest l) = version m"
    and amd: "imagePathAmd l = path_join (buildDir opts) (getImagePath (name m) (version m) ''linux/amd64'')"
    by (auto simp: injectUpstreamVersion_def Let_def)
  note bare = getLegacyImagePath_bare[OF assms(4,5)]
  have "?f \<noteq> getImagePath (name m) (version m) a" for a
    by (simp add: getLegacyImagePath_def getImagePath_def)
  with legacy_name_not_image_path[of "name m" "version m" "buildDir opts" "''linux/amd64''"] amd nm
  have exp: "?f \<notin> set (expectedImagePaths l)"
    by (auto simp: expectedImagePaths_def split: option.splits)
  have "last ?q = CHR ''z''"
    using path_join_bare(2)[OF bare(1,2), of "buildDir opts"] bare(3) by simp
  with copyTargets_last[OF assms(1)] have ct: "?q \<notin> set (copyTargets opts l)" by blast
  have ne: "?q \<noteq> path_join (buildDir opts) (getImagePath (name m) (version m) a)" for a
    by (rule legacy_path_not_image_path)
  have dp: "?q \<notin> destPath ` set (expectedBuilds opts l)"
  proof
    assume "?q \<in> destPath ` set (expectedBuilds opts l)"
    then have "\<exists>a. ?q = path_join (buildDir opts) (getImagePath (name m) (version m) a)"
      unfolding expectedBuilds_def architectureBuildArgs_def composeBuildArgs_def
      using nm amd by (cases "architectures' l") auto
    with ne show False by blast
  qed
  from run_absent_at_end[OF assms(1,2) bare(1,2) exp ct dp] assms(6) show ?thesis by blast
qed

lemma exLocals_swarm_eq:
  "buildAndUpload_locals (exEnv exManifest) (exOptions\<lparr>uploadToSwarm := True\<rparr>) = Inr exLocals"
  by code_simp

lemma ancestors_iff: "q \<in> set (ancestors k) \<longleftrightarrow> (\<exists>r. k = q @ CHR ''/'' # r)"
proof
  assume "q \<in> set (ancestors k)"
  then obtain i where i: "i < length k" "k ! i = CHR ''/''" "q = take i k"
    by (auto simp: ancestors_def)
  from i(1) have "k = take i k @ k ! i # drop (Suc i) k"
    by (simp add: Cons_nth_drop_Suc)
  with i(2,3) show "\<exists>r. k = q @ CHR ''/'' # r" by auto
next
  assume "\<exists>r. k = q @ CHR ''/'' # r"
  then obtain r where k: "k = q @ CHR ''/'' # r" by blast
  then have "length q < length k" "k ! length q = CHR ''/''" "take (length q) k = q"
    by simp_all
  then show "q \<in> set (ancestors k)"
    unfolding ancestors_def by (auto intro!: image_eqI[where x = "length q"])
qed

lemma normalize_entry_shape:
  assumes "last (splitSep J) = []"
  shows "\<exists>C. \<forall>w. CHR ''/'' \<notin> set w \<and> w \<noteq> [] \<and> w \<noteq> ''.'' \<and> w \<noteq> ''..''
                 \<longrightarrow> normalize (J @ w) = C @ w"
proof -
  define a where "a = (J \<noteq> [] \<and> hd J = CHR ''/'')"
  define N where "N = normalizeSegments (\<not> a) [] (butlast (splitSep J))"
  define C where "C = (if a then ''/'' else []) @ (if N = [] then [] else joinSep N @ ''/'')"
  have "normalize (J @ w) = C @ w"
    if w: "CHR ''/'' \<notin> set w" "w \<noteq> []" "w \<noteq> ''.''" "w \<noteq> ''..''" for w
  proof -
    from w(1,2) have hdw: "hd w \<noteq> CHR ''/''" and lastw: "last w \<noteq> CHR ''/''"
      by (metis hd_in_set, metis last_in_set)
    have ab: "isAbsolute (J @ w) = a"
      using w(2) hdw by (cases J) (auto simp: isAbsolute_def a_def)
    have segs: "normalizeSegments (\<not> a) [] (splitSep (J @ w)) = N @ [w]"
      unfolding N_def
      using normalizeSegments_snoc[OF w(2,3,4)] assms
      by (simp add: splitSep_snoc[OF w(1)])
    have res: "joinSep (N @ [w]) = (if N = [] then w else joinSep N @ ''/'' @ w)"
      by (rule joinSep_snoc)
    from w(2) res have resne: "joinSep (N @ [w]) \<noteq> []" by auto
    have "normalize (J @ w) = (if a then ''/'' else []) @ joinSep (N @ [w])"
      using w(2) lastw resne
      by (simp add: normalize_def Let_def ab segs del: joinSep.simps)
    with res show ?thesis by (auto simp: C_def)
  qed
  then show ?thesis by blast
qed

lemma path_join_entry:
  "\<exists>C. \<forall>w. CHR ''/'' \<notin> set w \<and> w \<noteq> [] \<and> w \<noteq> ''.'' \<and> w \<noteq> ''..''
          \<longrightarrow> path_join bd w = C @ w"
proof -
  let ?J = "if bd = [] then [] else bd @ ''/''"
  have "last (splitSep ?J) = []" by (simp add: splitSep_trailing)
  from normalize_entry_shape[OF this] obtain C
    where C: "\<And>w. CHR ''/'' \<notin> set w \<Longrightarrow> w \<noteq> [] \<Longrightarrow> w \<noteq> ''.'' \<Longrightarrow> w \<noteq> ''..''
                \<Longrightarrow> normalize (?J @ w) = C @ w"
    by blast
  have "path_join bd w = C @ w"
    if w: "CHR ''/'' \<notin> set w" "w \<noteq> []" "w \<noteq> ''.''" "w \<noteq> ''..''" for w
  proof -
    from w(2) have "path_join bd w = normalize (?J @ w)" by (simp add: path_join_def Let_def)
    with C[OF w] show ?thesis by simp
  qed
  then show ?thesis by blast
qed

lemma readdirSync_not_nested:
  assumes "f \<in> set (readdirSync fs d)" and "g \<in> set (readdirSync fs d)"
  shows "path_join d f \<notin> set (ancestors (path_join d g))"
proof
  assume "path_join d f \<in> set (ancestors (path_join d g))"
  then obtain r where r: "path_join d g = path_join d f @ CHR ''/'' # r"
    unfolding ancestors_iff by blast
  from path_join_entry[of d] obtain C
    where C: "\<And>w. CHR ''/'' \<notin> set w \<Longrightarrow> w \<noteq> [] \<Longrightarrow> w \<noteq> ''.'' \<Longrightarrow> w \<noteq> ''..''
                \<Longrightarrow> path_join d w = C @ w"
    by blast
  from assms(1) have "path_join d f = C @ f"
    by (intro C) (simp_all add: readdirSync_entry(4), simp_all add: readdirSync_iff)
  moreover from assms(2) have "path_join d g = C @ g"
    by (intro C) (simp_all add: readdirSync_entry(4), simp_all add: readdirSync_iff)
  ultimately have "g = f @ CHR ''/'' # r" using r by simp
  then have "CHR ''/'' \<in> set g" by simp
  with readdirSync_entry(4)[OF assms(2)] show False by simp
qed

lemma cleanFiles_success_flat:
  assumes "cleanFiles bd ips xs fs = (None, fs')"
      and "\<forall>x \<in> set xs. \<forall>y \<in> set xs. path_join bd y \<notin> set (ancestors (path_join bd x))"
  shows "\<forall>x \<in> set xs - set ips. \<not> isDirectory fs (path_join bd x)"
  using assms
proof (induction xs arbitrary: fs)
  case Nil
  show ?case by simp
next
  case (Cons x xs)
  from Cons.prems(2)
  have nest: "\<forall>a \<in> set xs. \<forall>b \<in> set xs. path_join bd b \<notin> set (ancestors (path_join bd a))"
    by simp
  show ?case
  proof (cases "x \<in> set ips")
    case True
    with Cons.prems(1) have "cleanFiles bd ips xs fs = (None, fs')" by simp
    from Cons.IH[OF this nest] True show ?thesis by auto
  next
    case False
    let ?qx = "path_join bd x"
    from False Cons.prems(1) obtain fs1 where un: "unlinkSync fs ?qx = Inr fs1"
      and tail: "cleanFiles bd ips xs fs1 = (None, fs')"
      by (auto split: sum.splits)
    from un have ndx: "\<not> isDirectory fs ?qx" and fx: "isFile fs ?qx"
      and m1: "map_of fs1 = (map_of fs)(?qx := None)"
      by (simp_all add: unlinkSync_success delete_conv')
    have "\<not> isDirectory fs (path_join bd y)" if y: "y \<in> set xs - set ips" for y
    proof
      let ?qy = "path_join bd y"
      assume d: "isDirectory fs ?qy"
      from Cons.IH[OF tail nest] y have nd1: "\<not> isDirectory fs1 ?qy" by blast
      from d consider "map_of fs ?qy = Some Directory"
        | k where "k \<in> dom (map_of fs)" "?qy \<in> set (ancestors k)"
        unfolding isDirectory_iff by blast
      then show False
      proof cases
        case 1
        with fx have "?qy \<noteq> ?qx" by (auto simp: isFile_iff)
        with 1 m1 have "map_of fs1 ?qy = Some Directory" by simp
        with nd1 show False by (simp add: isDirectory_iff)
      next
        case 2
        from y Cons.prems(2) have "?qy \<notin> set (ancestors ?qx)" by simp
        with 2(2) have "k \<noteq> ?qx" by auto
        with 2(1) m1 have "k \<in> dom (map_of fs1)" by auto
        with 2(2) nd1 show False unfolding isDirectory_iff by blast
      qed
    qed
    with ndx show ?thesis by auto
  qed
qed

lemma createReleaseDir_success_flat:
  assumes "mkdirSync (files s) (buildDir opts) = Inr fs0"
      and "fst (createReleaseDir opts l s) = None"
  shows "\<forall>f \<in> set (readdirSync fs0 (buildDir opts)) - set (expectedImagePaths l).
           \<not> isDirectory fs0 (path_join (buildDir opts) f)"
proof -
  let ?c = "cleanFiles (buildDir opts) (expectedImagePaths l) (readdirSync fs0 (buildDir opts)) fs0"
  from assms(2) createReleaseDir_made[OF assms(1), of l] have "fst ?c = None" by simp
  then have "?c = (None, snd ?c)" by (metis prod.collapse)
  from cleanFiles_success_flat[OF this] readdirSync_not_nested[of _ fs0 "buildDir opts"]
  show ?thesis by blast
qed

lemma createReleaseDir_success_iff:
  assumes "mkdirSync (files s) (buildDir opts) = Inr fs0"
  shows "fst (createReleaseDir opts l s) = None \<longleftrightarrow>
           (\<forall>f \<in> set (readdirSync fs0 (buildDir opts)) - set (expectedImagePaths l).
              \<not> isDirectory fs0 (path_join (buildDir opts) f))"
  using createReleaseDir_success_flat[OF assms] createReleaseDir_flat[OF assms] by blast

lemma createReleaseDir_listed_made:
  assumes "mkdirSync (files s) (buildDir opts) = Inr fs0"
      and "createReleaseDir opts l s = (None, s1)"
      and "f \<in> set (readdirSync fs0 (buildDir opts))"
      and "f \<notin> set (expectedImagePaths l)"
  shows "\<not> existsSync (files s1) (path_join (buildDir opts) f)"
proof -
  let ?q = "path_join (buildDir opts) f"
  from createReleaseDir_success[OF assms(2)] assms(1)
  have m: "map_of (files s1) =
               (\<lambda>p. if p \<in> path_join (buildDir opts) `
                            (set (readdirSync fs0 (buildDir opts)) - set (expectedImagePaths l))
                    then None else map_of fs0 p)"
      and nd: "\<forall>x \<in> set (readdirSync fs0 (buildDir opts)) - set (expectedImagePaths l).
                 \<not> isDirectory (files s1) (path_join (buildDir opts) x)"
    by auto
  from assms(3,4) nd have "\<not> isDirectory (files s1) ?q" by blast
  moreover from assms(3,4) m have "map_of (files s1) ?q = None" by auto
  then have "\<not> isFile (files s1) ?q" by (simp add: isFile_iff)
  ultimately show ?thesis by (simp add: existsSync_def)
qed

subsection \<open>The upload and what follows\<close>

lemma uploadTask_ipfs:
  "\<not> uploadToSwarm opts \<Longrightarrow> task (uploadTask e opts l) = uploadToIpfsTask e opts l"
  by (simp add: uploadTask_def)

lemma uploadTask_swarm:
  "uploadToSwarm opts \<Longrightarrow> task (uploadTask e opts l) = uploadToSwarmTask e opts"
  by (simp add: uploadTask_def)

lemma uploadToIpfsTask_no_archive:
  assumes "\<not> existsSync (files s) (imagePathAmd l)"
  shows "uploadToIpfsTask e opts l s = ipfsUpload e opts s"
  using assms by (simp add: uploadToIpfsTask_def copyLegacyImage_def andThen_def fsStep_def)

lemma uploadToIpfsTask_copy_fails:
  assumes "existsSync (files s) (imagePathAmd l)"
      and "copyFileSync (files s) (imagePathAmd l) (imagePathLegacy l) = Inl err"
  shows "uploadToIpfsTask e opts l s = (Some err, s)"
  using assms by (simp add: uploadToIpfsTask_def copyLegacyImage_def andThen_def fsStep_def)

lemma uploadToIpfsTask_copied:
  assumes "existsSync (files s) (imagePathAmd l)"
      and "copyFileSync (files s) (imagePathAmd l) (imagePathLegacy l) = Inr F"
  shows "uploadToIpfsTask e opts l s = ipfsUpload e opts (s\<lparr>files := F\<rparr>)"
  using assms by (simp add: uploadToIpfsTask_def copyLegacyImage_def andThen_def fsStep_def)

lemma ipfsUpload_address:
  assumes "ipfsAddFromFs e (files s) (buildDir opts) (ipfsProvider opts) = Inr h"
  shows "ipfsUpload e opts s =
           (None, s\<lparr>uploads := uploads s @ [(''ipfs'', ipfsProvider opts)],
                     ctx := (ctx s)\<lparr>releaseHash := Some h\<rparr>\<rparr>)"
  using assms by (simp add: ipfsUpload_def Let_def)

lemma ipfsUpload_files: "files (snd (ipfsUpload e opts s)) = files s"
  by (simp add: ipfsUpload_def Let_def split: sum.splits)

lemma uploadToSwarmTask_files: "files (snd (uploadToSwarmTask e opts s)) = files s"
  by (simp add: uploadToSwarmTask_def Let_def split: sum.splits)

lemma skipped_upload_run:
  assumes "buildAndUpload_locals e opts = Inr l"
      and "truthyFlag (skipUpload opts)"
      and "createReleaseDir opts l s = (None, s1)"
      and "copyFilesAndValidate e opts l s1 = (None, s2)"
      and "runListr (buildTasks e opts l) s2 = (None, s3)"
  shows "runBuildAndUpload e opts s = saveUploadResults e opts l s3"
  using assms
  by (simp add: runBuildAndUpload_def buildAndUpload_def bindE_def taskList_def runListr_append
        uploadTask_skip split: prod.splits option.splits)

lemma stages_builds:
  assumes "createReleaseDir opts l s = (None, s1)"
      and "copyFilesAndValidate e opts l s1 = (None, s2)"
      and "runListr (buildTasks e opts l) s2 = (None, s3)"
  shows "builds s3 = builds s @ expectedBuilds opts l"
    and "\<forall>a \<in> set (expectedBuilds opts l). isFile (files s3) (destPath a)"
proof -
  from assms(1) rest_createReleaseDir[of opts l s] have b1: "builds s1 = builds s"
    by (simp add: rest_def)
  from assms(2) rest_copyFilesAndValidate[of e opts l s1] have b2: "builds s2 = builds s1"
    by (simp add: rest_def)
  from runBuilds[OF assms(3)] b1 b2 show "builds s3 = builds s @ expectedBuilds opts l"
    and "\<forall>a \<in> set (expectedBuilds opts l). isFile (files s3) (destPath a)"
    by simp_all
qed

lemma taskList_skip_upload_frame:
  assumes "truthyFlag (skipUpload opts)" and "t \<in> set (taskList e opts l)" and "\<not> skip t"
  shows "releaseHash (ctx (snd (task t s))) = releaseHash (ctx s)"
    and "uploads (snd (task t s)) = uploads s"
    and "releaseHash (ctx s) = None \<Longrightarrow> releaseRecord (snd (task t s)) = releaseRecord s"
proof -
  from assms(2) consider
      (create) "task t = createReleaseDir opts l"
    | (copy) "task t = copyFilesAndValidate e opts l"
    | (build) "t \<in> set (buildTasks e opts l)"
    | (upload) "t = uploadTask e opts l"
    | (save) "task t = saveUploadResults e opts l"
    by (auto simp: taskList_def)
  then have "releaseHash (ctx (snd (task t s))) = releaseHash (ctx s)
         \<and> uploads (snd (task t s)) = uploads s
         \<and> (releaseHash (ctx s) = None \<longrightarrow> releaseRecord (snd (task t s)) = releaseRecord s)"
  proof cases
    case create
    with rest_createReleaseDir[of opts l s] show ?thesis by (simp add: rest_def)
  next
    case copy
    with rest_copyFilesAndValidate[of e opts l s] show ?thesis by (simp add: rest_def)
  next
    case build
    then show ?thesis by (simp add: buildTasks_frame)
  next
    case upload
    with assms(1,3) show ?thesis by (simp add: uploadTask_skip)
  next
    case save
    then show ?thesis by (simp add: saveUploadResults_frame saveUploadResults_no_address)
  qed
  then show "releaseHash (ctx (snd (task t s))) = releaseHash (ctx s)"
    and "uploads (snd (task t s)) = uploads s"
    and "releaseHash (ctx s) = None \<Longrightarrow> releaseRecord (snd (task t s)) = releaseRecord s"
    by simp_all
qed

lemma skip_upload_frame:
  assumes "truthyFlag (skipUpload opts)"
      and "runBuildAndUpload e opts s = (r, s')"
  shows "releaseHash (ctx s') = releaseHash (ctx s)"
    and "uploads s' = uploads s"
    and "releaseHash (ctx s) = None \<Longrightarrow> releaseRecord s' = releaseRecord s"
proof -
  let ?p = "\<lambda>s. (releaseHash (ctx s), uploads s,
                   if releaseHash (ctx s) = None then Some (releaseRecord s) else None)"
  have "?p s' = ?p s"
  proof (cases "buildAndUpload_locals e opts")
    case (Inl err)
    with assms(2) show ?thesis
      by (auto simp: runBuildAndUpload_def buildAndUpload_def bindE_def)
  next
    case (Inr l)
    with assms(2) have run: "runListr (taskList e opts l) s = (r, s')"
      by (simp add: runBuildAndUpload_def buildAndUpload_def bindE_def)
    have "?p (snd (runListr (taskList e opts l) s)) = ?p s"
      by (rule runListr_frame) (simp add: taskList_skip_upload_frame[OF assms(1)])
    moreover from run have "snd (runListr (taskList e opts l) s) = s'" by simp
    ultimately show ?thesis by (simp only:)
  qed
  then show "releaseHash (ctx s') = releaseHash (ctx s)"
    and "uploads s' = uploads s"
    and "releaseHash (ctx s) = None \<Longrightarrow> releaseRecord s' = releaseRecord s"
    by (simp_all split: if_splits)
qed

section \<open>The claims\<close>

subsection \<open>Rejected manifests\<close>

text \<open>
  C5. A manifest with \<open>image\<close> set, or with \<open>avatar\<close> set (to a truthy value, which is
  what the code tests: a non-empty string), makes buildAndUpload throw a CliError,
  carrying the message for the image or for the avatar. It throws before it returns
  any task, so the run ends with that error in the state it started from: no file of
  the build directory, or any other, has been written. The manifest is the one
  readManifest returned, after parseTimeout returned.
\<close>

theorem manifest_image_or_avatar_rejected:
  assumes "parseTimeout e (userTimeout opts) = Inr t"
      and "readManifest e (dir opts) = Inr m"
      and "image' m \<noteq> None \<or> truthy (avatar m)"
  shows "buildAndUpload e opts =
           Inl (CliError (if image' m \<noteq> None then manifestImageMessage
                          else manifestAvatarMessage))
         \<and> runBuildAndUpload e opts s =
           (Some (CliError (if image' m \<noteq> None then manifestImageMessage
                            else manifestAvatarMessage)), s)"
proof (cases "image' m = None")
  case True
  with assms have "buildAndUpload_locals e opts = Inl (CliError manifestAvatarMessage)"
    by (auto intro: locals_avatar_set)
  with True show ?thesis
    by (simp add: run_locals_error buildAndUpload_def bindE_def)
next
  case False
  with assms have "buildAndUpload_locals e opts = Inl (CliError manifestImageMessage)"
    by (auto intro: locals_image_set)
  with False show ?thesis
    by (simp add: run_locals_error buildAndUpload_def bindE_def)
qed

theorem manifest_image_or_avatar_rejected_witness:
  "parseTimeout (exEnv (exManifest\<lparr>avatar := Some ''a.png''\<rparr>)) (userTimeout exOptions) = Inr 60
   \<and> readManifest (exEnv (exManifest\<lparr>avatar := Some ''a.png''\<rparr>)) (dir exOptions)
       = Inr (exManifest\<lparr>avatar := Some ''a.png''\<rparr>)
   \<and> truthy (avatar (exManifest\<lparr>avatar := Some ''a.png''\<rparr>))
   \<and> runBuildAndUpload (exEnv (exManifest\<lparr>avatar := Some ''a.png''\<rparr>)) exOptions
         (exState [(''/b/old'', File (Data ''x''))])
       = (Some (CliError manifestAvatarMessage), exState [(''/b/old'', File (Data ''x''))])"
  using manifest_image_or_avatar_rejected
          [of "exEnv (exManifest\<lparr>avatar := Some ''a.png''\<rparr>)" exOptions 60
              "exManifest\<lparr>avatar := Some ''a.png''\<rparr>" "exState [(''/b/old'', File (Data ''x''))]"]
  by (simp add: exEnv_fields exManifest_def truthy_def)

text \<open>
  C6. A manifest whose name contains one of the capitals \<open>A\<close> to \<open>Z\<close> makes buildAndUpload
  throw a CliError, and the run ends with it in the state it started from. (The error
  is the one for the name unless the image or avatar check, which come first, fire.)
\<close>

theorem uppercase_name_rejected:
  assumes "parseTimeout e (userTimeout opts) = Inr t"
      and "readManifest e (dir opts) = Inr m"
      and "\<exists>c \<in> set (name m). c \<in> set ''ABCDEFGHIJKLMNOPQRSTUVWXYZ''"
  shows "\<exists>msg. buildAndUpload e opts = Inl (CliError msg)
           \<and> runBuildAndUpload e opts s = (Some (CliError msg), s)"
proof -
  from assms(3) obtain c
    where c: "c \<in> set (name m)" "c \<in> set ''ABCDEFGHIJKLMNOPQRSTUVWXYZ''"
    by blast
  from c(2) have "isUpperAZ c" by (rule isUpperAZ_capitals)
  with c(1) have up: "hasUppercase (name m)"
    unfolding hasUppercase_iff by blast
  have "\<exists>msg. buildAndUpload_locals e opts = Inl (CliError msg)"
  proof (cases "image' m = None")
    case False
    with assms show ?thesis by (auto intro: locals_image_set)
  next
    case img: True
    show ?thesis
    proof (cases "truthy (avatar m)")
      case True
      with img assms show ?thesis by (auto intro: locals_avatar_set)
    next
      case False
      with img up assms show ?thesis by (auto intro: locals_uppercase)
    qed
  qed
  then show ?thesis
    by (auto simp: run_locals_error buildAndUpload_def bindE_def)
qed

theorem uppercase_name_rejected_witness:
  "parseTimeout (exEnv (exManifest\<lparr>name := ''Foo''\<rparr>)) (userTimeout exOptions) = Inr 60
   \<and> readManifest (exEnv (exManifest\<lparr>name := ''Foo''\<rparr>)) (dir exOptions)
       = Inr (exManifest\<lparr>name := ''Foo''\<rparr>)
   \<and> (\<exists>c \<in> set (name (exManifest\<lparr>name := ''Foo''\<rparr>)). c \<in> set ''ABCDEFGHIJKLMNOPQRSTUVWXYZ'')
   \<and> (\<exists>msg. runBuildAndUpload (exEnv (exManifest\<lparr>name := ''Foo''\<rparr>)) exOptions (exState [])
               = (Some (CliError msg), exState []))"
  using uppercase_name_rejected
          [of "exEnv (exManifest\<lparr>name := ''Foo''\<rparr>)" exOptions 60
              "exManifest\<lparr>name := ''Foo''\<rparr>" "exState []"]
  by (auto simp: exEnv_fields exManifest_def)

subsection \<open>Upstream version\<close>

text \<open>
  C8. When the composition declares an upstream version (parseComposeUpstreamVersion
  returns a truthy string) or the environment variable \<open>UPSTREAM_VERSION\<close> holds one,
  the manifest that buildAndUpload goes on with is the manifest read, with
  \<open>upstreamVersion\<close> set to that value and nothing else changed; the value of the
  composition is the one taken whenever there is one, whatever the environment holds.
\<close>

theorem upstream_version_injected:
  assumes "buildAndUpload_locals e opts = Inr l"
      and "readManifest e (dir opts) = Inr m"
      and "readCompose e (dir opts) = Inr c"
      and "parseComposeUpstreamVersion e c = Inr cu"
      and "truthy cu \<or> truthy (UPSTREAM_VERSION e)"
  shows "manifest l = m\<lparr>upstreamVersion := (if truthy cu then cu else UPSTREAM_VERSION e)\<rparr>"
proof -
  from locals_manifest[OF assms(1)] assms(2-4)
  have "manifest l = injectUpstreamVersion cu (UPSTREAM_VERSION e) m" by auto
  with assms(5) show ?thesis
    by (auto simp: injectUpstreamVersion_def Let_def)
qed

theorem upstream_version_injected_witness:
  "buildAndUpload_locals
     ((exEnv exManifest)\<lparr>parseComposeUpstreamVersion := (\<lambda>_. Inr (Some ''2.0'')),
                          UPSTREAM_VERSION := Some ''3.0''\<rparr>) exOptions
     = Inr (exLocals\<lparr>manifest := exManifest\<lparr>upstreamVersion := Some ''2.0''\<rparr>\<rparr>)
   \<and> truthy (Some ''2.0'') \<and> truthy (Some ''3.0'')
   \<and> manifest (exLocals\<lparr>manifest := exManifest\<lparr>upstreamVersion := Some ''2.0''\<rparr>\<rparr>)
       = exManifest\<lparr>upstreamVersion := Some ''2.0''\<rparr>"
proof -
  let ?e = "(exEnv exManifest)\<lparr>parseComposeUpstreamVersion := (\<lambda>_. Inr (Some ''2.0'')),
                               UPSTREAM_VERSION := Some ''3.0''\<rparr>"
  have h2: "readManifest ?e (dir exOptions) = Inr exManifest"
    and h3: "readCompose ?e (dir exOptions) = Inr ''services''"
    and h4: "parseComposeUpstreamVersion ?e ''services'' = Inr (Some ''2.0'')"
    by (simp_all add: exEnv_fields)
  have h5: "truthy (Some ''2.0'') \<or> truthy (UPSTREAM_VERSION ?e)"
    by (simp add: truthy_def)
  from upstream_version_injected[OF exLocals_upstream_eq h2 h3 h4 h5] exLocals_upstream_eq
  show ?thesis by (simp add: truthy_def)
qed


subsection \<open>Cache pruning\<close>

text \<open>
  C9. A failure of pruneCache does not leave the last task: a run that completes when
  pruneCache succeeds also completes, with no error, when pruneCache throws \<open>err\<close>,
  and ends in the same state with one more console line, holding \<open>err\<close>.
\<close>

theorem prune_cache_failure_tolerated:
  assumes "pruneCache e = Inl err"
      and "runBuildAndUpload (e\<lparr>pruneCache := Inr ()\<rparr>) opts s = (None, s')"
  shows "runBuildAndUpload e opts s =
           (None, s'\<lparr>console := console s' @ [(''Error on pruneCache'', err)]\<rparr>)"
proof -
  let ?e0 = "e\<lparr>pruneCache := Inr ()\<rparr>"
  have e: "e = ?e0\<lparr>pruneCache := Inl err\<rparr>" using assms(1) by simp
  from assms(2) obtain l s4 where l: "buildAndUpload_locals ?e0 opts = Inr l"
    and pre: "runListr (tasksBeforeSave ?e0 opts l) s = (None, s4)"
    and save: "saveUploadResults ?e0 opts l s4 = (None, s')"
    unfolding run_success by blast
  from l have l': "buildAndUpload_locals e opts = Inr l" by (simp add: locals_pruneCache)
  from pre have pre': "runListr (tasksBeforeSave e opts l) s = (None, s4)"
    by (simp add: tasksBeforeSave_pruneCache)
  from saveUploadResults_pruneCache[OF save, of err]
  have "saveUploadResults e opts l s4 =
          (None, s'\<lparr>console := console s' @ [(''Error on pruneCache'', err)]\<rparr>)"
    using e by simp
  with l' pre' show ?thesis unfolding run_success by blast
qed

theorem prune_cache_failure_tolerated_witness:
  "pruneCache ((exEnv exManifest)\<lparr>pruneCache := Inl (OtherError ''docker'')\<rparr>)
     = Inl (OtherError ''docker'')
   \<and> fst (runBuildAndUpload (exEnv exManifest) exOptions (exState exFiles)) = None
   \<and> fst (runBuildAndUpload ((exEnv exManifest)\<lparr>pruneCache := Inl (OtherError ''docker'')\<rparr>)
            exOptions (exState exFiles)) = None
   \<and> console (snd (runBuildAndUpload
          ((exEnv exManifest)\<lparr>pruneCache := Inl (OtherError ''docker'')\<rparr>)
          exOptions (exState exFiles)))
       = [(''Error on pruneCache'', OtherError ''docker'')]"
proof -
  let ?e = "(exEnv exManifest)\<lparr>pruneCache := Inl (OtherError ''docker'')\<rparr>"
  let ?run = "runBuildAndUpload (exEnv exManifest) exOptions (exState exFiles)"
  have h1: "pruneCache ?e = Inl (OtherError ''docker'')" by simp
  have e0: "?e\<lparr>pruneCache := Inr ()\<rparr> = exEnv exManifest" by (simp add: exEnv_def)
  have ok: "fst ?run = None" by code_simp
  have quiet: "console (snd ?run) = []" by code_simp
  from ok have "?run = (None, snd ?run)" by (metis prod.collapse)
  with e0 have h2: "runBuildAndUpload (?e\<lparr>pruneCache := Inr ()\<rparr>) exOptions (exState exFiles)
                     = (None, snd ?run)" by simp
  from prune_cache_failure_tolerated[OF h1 h2] h1 ok quiet show ?thesis by simp
qed


subsection \<open>Cleaning the build directory\<close>

text \<open>
  C10. When the manifest declares no \<open>architectures\<close>, the expected set of the task
  "Create release dir" is the single path \<open>imagePathAmd\<close>, the build directory joined with
  the archive name of \<open>linux/amd64\<close>. When the build directory is absolute that path
  begins with a slash; the theorem takes that, or just that the path holds a slash (as
  it does for a relative build directory such as \<open>build_1.0.0\<close>). \<open>readdirSync\<close> gives
  bare names, so no name read from the directory is in the expected set, and the task
  calls \<open>unlinkSync\<close> on every one of them. Here \<open>fs0\<close> is the file system as \<open>mkdirSync\<close>
  leaves it, which is the one \<open>readdirSync\<close> reads; it lists all that the build directory
  held before. The task ends without error exactly when none of the names read is a
  sub-directory (on a sub-directory \<open>unlinkSync\<close> throws). When it ends without error,
  nothing that it read is left, a default-architecture archive of an earlier run
  included, and the directory is empty. (When \<open>mkdirSync\<close> throws, the task ends with
  that error and has deleted nothing: \<open>createReleaseDir_mkdir_error\<close>.)
\<close>

theorem default_clean_deletes_everything:
  assumes "buildAndUpload_locals e opts = Inr l"
      and "readManifest e (dir opts) = Inr m"
      and "architectures m = None"
      and "isAbsolute (buildDir opts)
           \<or> CHR ''/'' \<in> set (path_join (buildDir opts)
                                  (getImagePath (name m) (version m) ''linux/amd64''))"
      and "mkdirSync (files s) (buildDir opts) = Inr fs0"
  shows "expectedImagePaths l =
           [path_join (buildDir opts) (getImagePath (name m) (version m) ''linux/amd64'')]
         \<and> set (readdirSync (files s) (buildDir opts)) \<subseteq> set (readdirSync fs0 (buildDir opts))
         \<and> (\<forall>f \<in> set (readdirSync fs0 (buildDir opts)). f \<notin> set (expectedImagePaths l))
         \<and> (fst (createReleaseDir opts l s) = None \<longleftrightarrow>
               (\<forall>f \<in> set (readdirSync fs0 (buildDir opts)).
                   \<not> isDirectory fs0 (path_join (buildDir opts) f)))
         \<and> (fst (createReleaseDir opts l s) = None \<longrightarrow>
               (\<forall>f \<in> set (readdirSync fs0 (buildDir opts)).
                   \<not> existsSync (files (snd (createReleaseDir opts l s)))
                       (path_join (buildDir opts) f))
               \<and> readdirSync (files (snd (createReleaseDir opts l s))) (buildDir opts) = [])"
proof -
  let ?bd = "buildDir opts"
  let ?L = "readdirSync fs0 ?bd"
  let ?s' = "snd (createReleaseDir opts l s)"
  from locals_manifest[OF assms(1)] assms(2,3)
  have exp: "expectedImagePaths l = [path_join ?bd (getImagePath (name m) (version m) ''linux/amd64'')]"
    by (auto simp: expectedImagePaths_def)
  have sub: "set (readdirSync (files s) ?bd) \<subseteq> set ?L"
    by (rule readdirSync_mono[OF mkdirSync_success(4)[OF assms(5)]])
  have nomatch: "f \<notin> set (expectedImagePaths l)" if "f \<in> set ?L" for f
  proof
    assume "f \<in> set (expectedImagePaths l)"
    with exp have f: "f = path_join ?bd (getImagePath (name m) (version m) ''linux/amd64'')" by simp
    have "CHR ''/'' \<in> set f"
    proof (cases "isAbsolute ?bd")
      case True
      from path_join_absolute[OF this] f have "f \<noteq> []" "hd f = CHR ''/''" by simp_all
      then show ?thesis by (cases f) auto
    next
      case False
      with assms(4) f show ?thesis by simp
    qed
    with readdirSync_entry(4)[OF that] show False by simp
  qed
  then have all: "set ?L - set (expectedImagePaths l) = set ?L" by blast
  have iff: "fst (createReleaseDir opts l s) = None \<longleftrightarrow>
               (\<forall>f \<in> set ?L. \<not> isDirectory fs0 (path_join ?bd f))"
    using createReleaseDir_success_iff[OF assms(5), of l] by (simp only: all)
  have after: "(\<forall>f \<in> set ?L. \<not> existsSync (files ?s') (path_join ?bd f))
               \<and> readdirSync (files ?s') ?bd = []"
    if ok: "fst (createReleaseDir opts l s) = None"
  proof -
    from ok have run: "createReleaseDir opts l s = (None, ?s')" by (metis prod.collapse)
    have gone: "\<not> existsSync (files ?s') (path_join ?bd f)" if "f \<in> set ?L" for f
      using createReleaseDir_listed_made[OF assms(5) run that nomatch[OF that]] .
    have "f \<notin> set (readdirSync (files ?s') ?bd)" for f
    proof
      assume f: "f \<in> set (readdirSync (files ?s') ?bd)"
      with createReleaseDir_emptied[OF run] have "f \<in> set (expectedImagePaths l)" by blast
      with exp have "CHR ''/'' \<in> set f \<or> f \<notin> set ?L" using nomatch by blast
      moreover from createReleaseDir_success[OF run] assms(5)
      have "dom (map_of (files ?s')) \<subseteq> dom (map_of fs0)" by (auto split: if_splits)
      from readdirSync_mono[OF this] f have "f \<in> set ?L" by blast
      ultimately show False using readdirSync_entry(4)[OF f] by simp
    qed
    then have "readdirSync (files ?s') ?bd = []" by (cases "readdirSync (files ?s') ?bd") auto
    with gone show ?thesis by simp
  qed
  from exp sub nomatch iff after show ?thesis by blast
qed

theorem default_clean_deletes_everything_witness:
  "buildAndUpload_locals (exEnv exManifest) exOptions = Inr exLocals
   \<and> architectures exManifest = None
   \<and> isAbsolute (buildDir exOptions)
   \<and> mkdirSync [(''/b/foo_1.0.0_linux-amd64.txz'', File (Data ''built'')),
                 (''/b/notes'', File (Data ''n''))] (buildDir exOptions)
       = Inr [(''/b/foo_1.0.0_linux-amd64.txz'', File (Data ''built'')),
              (''/b/notes'', File (Data ''n'')), (''/b'', Directory)]
   \<and> readdirSync [(''/b/foo_1.0.0_linux-amd64.txz'', File (Data ''built'')),
                   (''/b/notes'', File (Data ''n'')), (''/b'', Directory)] (buildDir exOptions)
       = [''foo_1.0.0_linux-amd64.txz'', ''notes'']
   \<and> \<not> isDirectory [(''/b/foo_1.0.0_linux-amd64.txz'', File (Data ''built'')),
                      (''/b/notes'', File (Data ''n'')), (''/b'', Directory)]
          ''/b/foo_1.0.0_linux-amd64.txz''
   \<and> \<not> isDirectory [(''/b/foo_1.0.0_linux-amd64.txz'', File (Data ''built'')),
                      (''/b/notes'', File (Data ''n'')), (''/b'', Directory)] ''/b/notes''
   \<and> fst (createReleaseDir exOptions exLocals
             (exState [(''/b/foo_1.0.0_linux-amd64.txz'', File (Data ''built'')),
                       (''/b/notes'', File (Data ''n''))])) = None
   \<and> readdirSync (files (snd (createReleaseDir exOptions exLocals
          (exState [(''/b/foo_1.0.0_linux-amd64.txz'', File (Data ''built'')),
                    (''/b/notes'', File (Data ''n''))]))))
        (buildDir exOptions) = []"
proof -
  let ?fs = "[(''/b/foo_1.0.0_linux-amd64.txz'', File (Data ''built'')),
              (''/b/notes'', File (Data ''n''))]"
  let ?made = "[(''/b/foo_1.0.0_linux-amd64.txz'', File (Data ''built'')),
               (''/b/notes'', File (Data ''n'')), (''/b'', Directory)]"
  have h2: "readManifest (exEnv exManifest) (dir exOptions) = Inr exManifest"
    by (simp add: exEnv_fields)
  have h3: "architectures exManifest = None" by (simp add: exManifest_def)
  have abs: "isAbsolute (buildDir exOptions)" by (simp add: exOptions_def isAbsolute_def)
  then have h4: "isAbsolute (buildDir exOptions)
                 \<or> CHR ''/'' \<in> set (path_join (buildDir exOptions)
                       (getImagePath (name exManifest) (version exManifest) ''linux/amd64''))"
    by simp
  have mk: "mkdirSync ?fs (buildDir exOptions) = Inr ?made" by code_simp
  then have h5: "mkdirSync (files (exState ?fs)) (buildDir exOptions) = Inr ?made"
    by (simp add: exState_fields)
  have ls: "readdirSync ?made (buildDir exOptions) = [''foo_1.0.0_linux-amd64.txz'', ''notes'']"
    by code_simp
  have bd: "path_join (buildDir exOptions) ''foo_1.0.0_linux-amd64.txz''
              = ''/b/foo_1.0.0_linux-amd64.txz''"
      "path_join (buildDir exOptions) ''notes'' = ''/b/notes''"
    by code_simp+
  have nd: "\<not> isDirectory ?made ''/b/foo_1.0.0_linux-amd64.txz''" "\<not> isDirectory ?made ''/b/notes''"
    by code_simp+
  from default_clean_deletes_everything[OF exLocals_eq h2 h3 h4 h5]
    exLocals_eq h3 abs mk ls bd nd
  show ?thesis by simp
qed

text \<open>
  A build directory with a sub-directory: \<open>/b\<close> holds the file \<open>z\<close> and the directory \<open>sub\<close>
  with a file in it. The task throws at \<open>sub\<close>, which \<open>readdirSync\<close> gives first here,
  and has deleted nothing. And a build directory that is a regular file: \<open>mkdirSync\<close>
  throws.
\<close>

lemma createReleaseDir_subdirectory:
  "readdirSync [(''/b/sub/x'', File (Data ''x'')), (''/b/z'', File (Data ''z'')), (''/b'', Directory)]
      (buildDir exOptions) = [''sub'', ''z'']
   \<and> fst (createReleaseDir exOptions exLocals
            (exState [(''/b/sub/x'', File (Data ''x'')), (''/b/z'', File (Data ''z''))]))
       = Some (FsError ''EISDIR'')
   \<and> isFile (files (snd (createReleaseDir exOptions exLocals
            (exState [(''/b/sub/x'', File (Data ''x'')), (''/b/z'', File (Data ''z''))])))) ''/b/z''
   \<and> fst (createReleaseDir exOptions exLocals
            (exState [(''/b/empty'', Directory), (''/b/z'', File (Data ''z''))]))
       = Some (FsError ''EISDIR'')
   \<and> createReleaseDir exOptions exLocals (exState [(''/b'', File (Data ''f''))])
       = (Some (FsError ''EEXIST''), exState [(''/b'', File (Data ''f''))])"
proof -
  have "mkdirSync (files (exState [(''/b'', File (Data ''f''))])) (buildDir exOptions)
          = Inl (FsError ''EEXIST'')"
    by code_simp
  then have "createReleaseDir exOptions exLocals (exState [(''/b'', File (Data ''f''))])
       = (Some (FsError ''EEXIST''), exState [(''/b'', File (Data ''f''))])"
    by (rule createReleaseDir_mkdir_error)
  moreover have "readdirSync [(''/b/sub/x'', File (Data ''x'')), (''/b/z'', File (Data ''z'')),
        (''/b'', Directory)] (buildDir exOptions) = [''sub'', ''z'']"
    by code_simp
  moreover have "fst (createReleaseDir exOptions exLocals
            (exState [(''/b/sub/x'', File (Data ''x'')), (''/b/z'', File (Data ''z''))]))
       = Some (FsError ''EISDIR'')"
    by code_simp
  moreover have "isFile (files (snd (createReleaseDir exOptions exLocals
            (exState [(''/b/sub/x'', File (Data ''x'')), (''/b/z'', File (Data ''z''))])))) ''/b/z''"
    by code_simp
  moreover have "fst (createReleaseDir exOptions exLocals
            (exState [(''/b/empty'', Directory), (''/b/z'', File (Data ''z''))]))
       = Some (FsError ''EISDIR'')"
    by code_simp
  ultimately show ?thesis by simp
qed

text \<open>
  C2, where the code departs from it: the sample package declares no architectures, its
  build directory \<open>/b\<close> holds the archive of an earlier run under the name \<open>getImagePath\<close>
  gives for the default architecture \<open>linux/amd64\<close>, and the task "Create release dir"
  deletes that file instead of keeping it: what is left is the empty directory. (With
  declared architectures a task that ends without error has kept the files named for
  them and deleted the others, by \<open>createReleaseDir_kept\<close>.)
\<close>

theorem default_archive_deleted_on_clean:
  "buildAndUpload_locals (exEnv exManifest) exOptions = Inr exLocals
   \<and> architectures exManifest = None
   \<and> getImagePath (name exManifest) (version exManifest) ''linux/amd64''
        = ''foo_1.0.0_linux-amd64.txz''
   \<and> readdirSync [(''/b/foo_1.0.0_linux-amd64.txz'', File (Data ''built''))] (buildDir exOptions)
        = [''foo_1.0.0_linux-amd64.txz'']
   \<and> fst (createReleaseDir exOptions exLocals
             (exState [(''/b/foo_1.0.0_linux-amd64.txz'', File (Data ''built''))])) = None
   \<and> files (snd (createReleaseDir exOptions exLocals
             (exState [(''/b/foo_1.0.0_linux-amd64.txz'', File (Data ''built''))])))
        = [(''/b'', Directory)]"
  by code_simp

subsection \<open>The legacy copy before an upload\<close>

text \<open>
  C4. The state \<open>s3\<close> is the one in which the upload task of a run starts: the tasks
  "Create release dir" and "Copy files and validate" and the builds have ended without
  error. Nothing is at the legacy path then, whatever the build directory held before
  the run: the first task has removed it and no later one writes it (for a name and a
  version without a slash). The code tests the default-architecture archive only, and
  with the legacy path absent that is the test of the claim. So, in the IPFS task: when
  the archive \<open>imagePathAmd\<close> is not there, nothing is copied and the tree is uploaded as
  it is; when it is there, it is copied to the legacy path first, and what
  \<open>ipfsAddFromFs\<close> is given is the tree with the copy in it (a copy that throws ends the
  task before any upload). When the manifest declares no architectures the archive is
  there. The Swarm task uploads the tree as it is and leaves the legacy path absent.
\<close>

theorem legacy_copy_before_ipfs_upload:
  assumes "buildAndUpload_locals e opts = Inr l"
      and "readManifest e (dir opts) = Inr m"
      and "CHR ''/'' \<notin> set (name m)" and "CHR ''/'' \<notin> set (version m)"
      and "createReleaseDir opts l s = (None, s1)"
      and "copyFilesAndValidate e opts l s1 = (None, s2)"
      and "runListr (buildTasks e opts l) s2 = (None, s3)"
  shows "imagePathLegacy l = path_join (buildDir opts) (getLegacyImagePath (name m) (version m))
         \<and> imagePathAmd l =
             path_join (buildDir opts) (getImagePath (name m) (version m) ''linux/amd64'')
         \<and> map_of (files s3) (imagePathLegacy l) = None
         \<and> (architectures m = None \<longrightarrow> isFile (files s3) (imagePathAmd l))
         \<and> (\<not> uploadToSwarm opts \<longrightarrow>
               task (uploadTask e opts l) = uploadToIpfsTask e opts l
               \<and> (\<not> existsSync (files s3) (imagePathAmd l) \<longrightarrow>
                     uploadToIpfsTask e opts l s3 = ipfsUpload e opts s3
                     \<and> map_of (files (snd (uploadToIpfsTask e opts l s3))) (imagePathLegacy l)
                         = None)
               \<and> (existsSync (files s3) (imagePathAmd l) \<longrightarrow>
                     (\<forall>err. copyFileSync (files s3) (imagePathAmd l) (imagePathLegacy l) = Inl err
                         \<longrightarrow> uploadToIpfsTask e opts l s3 = (Some err, s3))
                     \<and> (\<forall>F. copyFileSync (files s3) (imagePathAmd l) (imagePathLegacy l) = Inr F
                         \<longrightarrow> map_of F =
                               (map_of (files s3))
                                 (imagePathLegacy l := map_of (files s3) (imagePathAmd l))
                             \<and> isFile F (imagePathLegacy l)
                             \<and> uploadToIpfsTask e opts l s3 = ipfsUpload e opts (s3\<lparr>files := F\<rparr>)
                             \<and> (\<forall>h. ipfsAddFromFs e F (buildDir opts) (ipfsProvider opts) = Inr h
                                  \<longrightarrow> uploadToIpfsTask e opts l s3 =
                                        (None, s3\<lparr>files := F,
                                                   uploads := uploads s3 @ [(''ipfs'', ipfsProvider opts)],
                                                   ctx := (ctx s3)\<lparr>releaseHash := Some h\<rparr>\<rparr>)))))
         \<and> (uploadToSwarm opts \<longrightarrow>
               task (uploadTask e opts l) = uploadToSwarmTask e opts
               \<and> files (snd (uploadToSwarmTask e opts s3)) = files s3)"
proof -
  let ?bd = "buildDir opts"
  let ?f = "getLegacyImagePath (name m) (version m)"
  let ?amd = "imagePathAmd l"
  let ?leg = "imagePathLegacy l"
  from locals_manifest[OF assms(1)] assms(2)
  have nm: "name (manifest l) = name m" "version (manifest l) = version m"
    and amd: "?amd = path_join ?bd (getImagePath (name m) (version m) ''linux/amd64'')"
    and leg: "?leg = path_join ?bd ?f"
    and arch: "architectures m = None \<Longrightarrow> architectures' l = None"
    by (auto simp: injectUpstreamVersion_def Let_def)
  note bare = getLegacyImagePath_bare[OF assms(3,4)]
  have "?f \<noteq> getImagePath (name m) (version m) a" for a
    by (simp add: getLegacyImagePath_def getImagePath_def)
  with legacy_name_not_image_path[of "name m" "version m" ?bd "''linux/amd64''"] amd nm
  have exp: "?f \<notin> set (expectedImagePaths l)"
    by (auto simp: expectedImagePaths_def split: option.splits)
  have "last (path_join ?bd ?f) = CHR ''z''"
    using path_join_bare(2)[OF bare(1,2), of ?bd] bare(3) by simp
  with copyTargets_last[OF assms(1)] have ct: "path_join ?bd ?f \<notin> set (copyTargets opts l)"
    by blast
  have ne: "path_join ?bd ?f \<noteq> path_join ?bd (getImagePath (name m) (version m) a)" for a
    by (rule legacy_path_not_image_path)
  have dp: "path_join ?bd ?f \<notin> destPath ` set (expectedBuilds opts l)"
  proof
    assume "path_join ?bd ?f \<in> destPath ` set (expectedBuilds opts l)"
    then have "\<exists>a. path_join ?bd ?f = path_join ?bd (getImagePath (name m) (version m) a)"
      unfolding expectedBuilds_def architectureBuildArgs_def composeBuildArgs_def
      using nm amd by (cases "architectures' l") auto
    with ne show False by blast
  qed
  from absent_before_upload[OF assms(5,6,7) bare(1,2) exp ct dp] leg
  have absent: "map_of (files s3) ?leg = None" by simp
  have built: "isFile (files s3) ?amd" if "architectures m = None"
  proof -
    from arch[OF that] have "expectedBuilds opts l = [composeBuildArgs opts l]"
      by (simp add: expectedBuilds_def)
    with stages_builds(2)[OF assms(5,6,7)] show ?thesis by (simp add: composeBuildArgs_def)
  qed
  have nocopy: "uploadToIpfsTask e opts l s3 = ipfsUpload e opts s3
                \<and> map_of (files (snd (uploadToIpfsTask e opts l s3))) ?leg = None"
    if "\<not> existsSync (files s3) ?amd"
  proof -
    from uploadToIpfsTask_no_archive[OF that]
    have eq: "uploadToIpfsTask e opts l s3 = ipfsUpload e opts s3" .
    have "files (snd (ipfsUpload e opts s3)) = files s3"
      by (simp add: ipfsUpload_def Let_def split: sum.splits)
    with eq absent show ?thesis by simp
  qed
  have copied: "map_of F = (map_of (files s3))(?leg := map_of (files s3) ?amd)
                \<and> isFile F ?leg
                \<and> uploadToIpfsTask e opts l s3 = ipfsUpload e opts (s3\<lparr>files := F\<rparr>)
                \<and> (\<forall>h. ipfsAddFromFs e F ?bd (ipfsProvider opts) = Inr h
                      \<longrightarrow> uploadToIpfsTask e opts l s3 =
                            (None, s3\<lparr>files := F,
                                       uploads := uploads s3 @ [(''ipfs'', ipfsProvider opts)],
                                       ctx := (ctx s3)\<lparr>releaseHash := Some h\<rparr>\<rparr>))"
    if ex: "existsSync (files s3) ?amd" and cp: "copyFileSync (files s3) ?amd ?leg = Inr F" for F
  proof -
    note eq = uploadToIpfsTask_copied[OF ex cp, of e opts]
    have "uploadToIpfsTask e opts l s3 =
            (None, s3\<lparr>files := F,
                       uploads := uploads s3 @ [(''ipfs'', ipfsProvider opts)],
                       ctx := (ctx s3)\<lparr>releaseHash := Some h\<rparr>\<rparr>)"
      if "ipfsAddFromFs e F ?bd (ipfsProvider opts) = Inr h" for h
      using ipfsUpload_address[of e "s3\<lparr>files := F\<rparr>" opts h] that eq by simp
    with copyFileSync_map(1,3)[OF cp] eq show ?thesis by blast
  qed
  from leg amd absent built nocopy copied uploadToIpfsTask_copy_fails[of s3 l _ e opts]
    uploadTask_ipfs[of opts e l] uploadTask_swarm[of opts e l] uploadToSwarmTask_files[of e opts s3]
  show ?thesis by blast
qed

theorem legacy_copy_before_ipfs_upload_witness:
  "buildAndUpload_locals exEnvTree exOptions = Inr exLocals
   \<and> readManifest exEnvTree (dir exOptions) = Inr exManifest
   \<and> CHR ''/'' \<notin> set (name exManifest) \<and> CHR ''/'' \<notin> set (version exManifest)
   \<and> architectures exManifest = None \<and> \<not> uploadToSwarm exOptions
   \<and> imagePathLegacy exLocals = ''/b/foo_1.0.0.tar.xz''
   \<and> imagePathAmd exLocals = ''/b/foo_1.0.0_linux-amd64.txz''
   \<and> map_of exFilesStale ''/b/foo_1.0.0.tar.xz'' = Some (File (Data ''stale''))
   \<and> createReleaseDir exOptions exLocals (exState exFilesStale) = (None, exStateCleaned)
   \<and> copyFilesAndValidate exEnvTree exOptions exLocals exStateCleaned = (None, exStateCopied)
   \<and> runListr (buildTasks exEnvTree exOptions exLocals) exStateCopied = (None, exStateBuilt)
   \<and> map_of (files exStateBuilt) ''/b/foo_1.0.0.tar.xz'' = None
   \<and> existsSync (files exStateBuilt) ''/b/foo_1.0.0_linux-amd64.txz''
   \<and> copyFileSync (files exStateBuilt) ''/b/foo_1.0.0_linux-amd64.txz'' ''/b/foo_1.0.0.tar.xz''
       = Inr (files exStateBuilt @ [(''/b/foo_1.0.0.tar.xz'', File (Data ''image''))])
   \<and> ipfsAddFromFs exEnvTree (files exStateBuilt) (buildDir exOptions) (ipfsProvider exOptions)
       = Inr ''/ipfs/QmWithout''
   \<and> ipfsAddFromFs exEnvTree
        (files exStateBuilt @ [(''/b/foo_1.0.0.tar.xz'', File (Data ''image''))])
        (buildDir exOptions) (ipfsProvider exOptions)
       = Inr ''/ipfs/QmWithLegacy''
   \<and> uploadToIpfsTask exEnvTree exOptions exLocals exStateBuilt =
       (None, exStateBuilt\<lparr>files :=
                  files exStateBuilt @ [(''/b/foo_1.0.0.tar.xz'', File (Data ''image''))],
                uploads := uploads exStateBuilt @ [(''ipfs'', ipfsProvider exOptions)],
                ctx := (ctx exStateBuilt)\<lparr>releaseHash := Some ''/ipfs/QmWithLegacy''\<rparr>\<rparr>)"
proof -
  let ?F = "files exStateBuilt @ [(''/b/foo_1.0.0.tar.xz'', File (Data ''image''))]"
  have loc: "buildAndUpload_locals exEnvTree exOptions = Inr exLocals" by code_simp
  have h2: "readManifest exEnvTree (dir exOptions) = Inr exManifest"
    by (simp add: exEnvTree_def exEnv_fields)
  have n: "CHR ''/'' \<notin> set (name exManifest)" "CHR ''/'' \<notin> set (version exManifest)"
    and a: "architectures exManifest = None"
    by (simp_all add: exManifest_def)
  have ipfs: "\<not> uploadToSwarm exOptions" by (simp add: exOptions_def)
  have paths: "imagePathLegacy exLocals = ''/b/foo_1.0.0.tar.xz''"
      "imagePathAmd exLocals = ''/b/foo_1.0.0_linux-amd64.txz''"
    by (simp_all add: exLocals_def)
  have stale: "map_of exFilesStale ''/b/foo_1.0.0.tar.xz'' = Some (File (Data ''stale''))"
    by code_simp
  have "fst (createReleaseDir exOptions exLocals (exState exFilesStale)) = None" by code_simp
  then have s1: "createReleaseDir exOptions exLocals (exState exFilesStale) = (None, exStateCleaned)"
    unfolding exStateCleaned_def by (metis prod.collapse)
  have "fst (copyFilesAndValidate exEnvTree exOptions exLocals exStateCleaned) = None" by code_simp
  then have s2: "copyFilesAndValidate exEnvTree exOptions exLocals exStateCleaned
                   = (None, exStateCopied)"
    unfolding exStateCopied_def by (metis prod.collapse)
  have "fst (runListr (buildTasks exEnvTree exOptions exLocals) exStateCopied) = None" by code_simp
  then have s3: "runListr (buildTasks exEnvTree exOptions exLocals) exStateCopied
                   = (None, exStateBuilt)"
    unfolding exStateBuilt_def by (metis prod.collapse)
  have ex: "existsSync (files exStateBuilt) ''/b/foo_1.0.0_linux-amd64.txz''" by code_simp
  have cp: "copyFileSync (files exStateBuilt) ''/b/foo_1.0.0_linux-amd64.txz''
              ''/b/foo_1.0.0.tar.xz'' = Inr ?F"
    by code_simp
  have without: "ipfsAddFromFs exEnvTree (files exStateBuilt) (buildDir exOptions)
                   (ipfsProvider exOptions) = Inr ''/ipfs/QmWithout''"
    by code_simp
  have withLegacy: "ipfsAddFromFs exEnvTree ?F (buildDir exOptions) (ipfsProvider exOptions)
                      = Inr ''/ipfs/QmWithLegacy''"
    by code_simp
  note run = legacy_copy_before_ipfs_upload[OF loc h2 n s1 s2 s3, unfolded paths]
  from run have absent: "map_of (files exStateBuilt) ''/b/foo_1.0.0.tar.xz'' = None"
    by blast
  from run ipfs ex cp withLegacy
  have up: "uploadToIpfsTask exEnvTree exOptions exLocals exStateBuilt =
       (None, exStateBuilt\<lparr>files := ?F,
                uploads := uploads exStateBuilt @ [(''ipfs'', ipfsProvider exOptions)],
                ctx := (ctx exStateBuilt)\<lparr>releaseHash := Some ''/ipfs/QmWithLegacy''\<rparr>\<rparr>)"
    by blast
  show ?thesis
    by (intro conjI loc h2 n a ipfs paths stale s1 s2 s3 absent ex cp without withLegacy up)
qed

subsection \<open>Skipping the upload\<close>

text \<open>
  C1. In a run with \<open>skipUpload\<close> set no upload is made and \<open>releaseHash\<close> of the shared
  context stays what it was, however the run ends; when it was unset, the run leaves it
  unset and writes no release record. The upload task is the only one passed over: the
  run is the tasks "Create release dir" and "Copy files and validate" and the builds,
  followed by the task "Save upload results", which the code does not skip. When the
  first three end without error, the files and the builds at the end of the run are
  theirs, and, with \<open>releaseHash\<close> unset, the last task cannot fail: the run completes,
  with \<open>releaseMultiHash\<close> unset as well. And a run that completes has gone through the
  three. (That nothing is recorded for an absent content address is how the release
  record store is modelled, from the spec.)
\<close>

theorem skip_upload_run:
  assumes "truthyFlag (skipUpload opts)"
      and "runBuildAndUpload e opts s = (r, s')"
  shows "uploads s' = uploads s
         \<and> releaseHash (ctx s') = releaseHash (ctx s)
         \<and> (releaseHash (ctx s) = None \<longrightarrow> releaseRecord s' = releaseRecord s)
         \<and> (\<forall>l s1 s2 s3.
               buildAndUpload_locals e opts = Inr l
               \<and> createReleaseDir opts l s = (None, s1)
               \<and> copyFilesAndValidate e opts l s1 = (None, s2)
               \<and> runListr (buildTasks e opts l) s2 = (None, s3)
               \<longrightarrow> files s' = files s3
                   \<and> builds s' = builds s @ expectedBuilds opts l
                   \<and> (releaseHash (ctx s) = None \<longrightarrow>
                         r = None \<and> releaseMultiHash (ctx s') = None))
         \<and> (r = None \<longrightarrow>
               (\<exists>l s1 s2 s3.
                   buildAndUpload_locals e opts = Inr l
                   \<and> createReleaseDir opts l s = (None, s1)
                   \<and> copyFilesAndValidate e opts l s1 = (None, s2)
                   \<and> runListr (buildTasks e opts l) s2 = (None, s3)))"
proof -
  note frame = skip_upload_frame[OF assms]
  have forward: "files s' = files s3
                   \<and> builds s' = builds s @ expectedBuilds opts l
                   \<and> (releaseHash (ctx s) = None \<longrightarrow>
                         r = None \<and> releaseMultiHash (ctx s') = None)"
    if l: "buildAndUpload_locals e opts = Inr l"
      and a: "createReleaseDir opts l s = (None, s1)"
      and b: "copyFilesAndValidate e opts l s1 = (None, s2)"
      and c: "runListr (buildTasks e opts l) s2 = (None, s3)"
    for l s1 s2 s3
  proof -
    from skipped_upload_run[OF l assms(1) a b c] assms(2)
    have save: "saveUploadResults e opts l s3 = (r, s')" by simp
    from save saveUploadResults_frame(1,2,4)[of e opts l s3]
    have f: "files s' = files s3" and bs: "builds s' = builds s3"
      and rh: "releaseHash (ctx s') = releaseHash (ctx s3)" by simp_all
    have "r = None \<and> releaseMultiHash (ctx s') = None" if "releaseHash (ctx s) = None"
    proof -
      from that frame(1) rh have "releaseHash (ctx s3) = None" by simp
      from saveUploadResults_no_address(1,3)[OF this, of e opts l] save show ?thesis by simp
    qed
    with f bs stages_builds(1)[OF a b c] show ?thesis by simp
  qed
  have backward: "\<exists>l s1 s2 s3.
                   buildAndUpload_locals e opts = Inr l
                   \<and> createReleaseDir opts l s = (None, s1)
                   \<and> copyFilesAndValidate e opts l s1 = (None, s2)
                   \<and> runListr (buildTasks e opts l) s2 = (None, s3)"
    if "r = None"
  proof -
    from that assms(2) have "runBuildAndUpload e opts s = (None, s')" by simp
    then obtain l s4 where l: "buildAndUpload_locals e opts = Inr l"
      and pre: "runListr (tasksBeforeSave e opts l) s = (None, s4)"
      unfolding run_success by blast
    from before_save_success[OF pre] l show ?thesis by blast
  qed
  from frame forward backward show ?thesis by blast
qed

theorem skip_upload_run_witness:
  "truthyFlag (skipUpload (exOptions\<lparr>skipUpload := Some True\<rparr>))
   \<and> releaseHash (ctx (exState exFiles)) = None
   \<and> releaseRecord (exState exFiles) = Map.empty
   \<and> fst (runBuildAndUpload (exEnv exManifest) (exOptions\<lparr>skipUpload := Some True\<rparr>)
            (exState exFiles)) = None
   \<and> uploads (snd (runBuildAndUpload (exEnv exManifest) (exOptions\<lparr>skipUpload := Some True\<rparr>)
                     (exState exFiles))) = []
   \<and> releaseHash (ctx (snd (runBuildAndUpload (exEnv exManifest)
          (exOptions\<lparr>skipUpload := Some True\<rparr>) (exState exFiles)))) = None
   \<and> releaseRecord (snd (runBuildAndUpload (exEnv exManifest)
          (exOptions\<lparr>skipUpload := Some True\<rparr>) (exState exFiles))) = Map.empty
   \<and> map destPath (builds (snd (runBuildAndUpload (exEnv exManifest)
          (exOptions\<lparr>skipUpload := Some True\<rparr>) (exState exFiles))))
       = [''/b/foo_1.0.0_linux-amd64.txz'']
   \<and> readdirSync (files (snd (runBuildAndUpload (exEnv exManifest)
          (exOptions\<lparr>skipUpload := Some True\<rparr>) (exState exFiles)))) ''/b''
       = [''avatar.png'', ''docker-compose.yml'', ''dappnode_package.json'',
          ''foo_1.0.0_linux-amd64.txz'']"
proof -
  let ?o = "exOptions\<lparr>skipUpload := Some True\<rparr>"
  let ?run = "runBuildAndUpload (exEnv exManifest) ?o (exState exFiles)"
  have h1: "truthyFlag (skipUpload ?o)" by (simp add: truthyFlag_def)
  have h2: "?run = (fst ?run, snd ?run)" by simp
  have unset: "releaseHash (ctx (exState exFiles)) = None"
    and none: "releaseRecord (exState exFiles) = Map.empty"
    by (simp_all add: exState_fields)
  have ok: "fst ?run = None" by code_simp
  have bs: "map destPath (builds (snd ?run)) = [''/b/foo_1.0.0_linux-amd64.txz'']" by code_simp
  have ls: "readdirSync (files (snd ?run)) ''/b''
       = [''avatar.png'', ''docker-compose.yml'', ''dappnode_package.json'',
          ''foo_1.0.0_linux-amd64.txz'']"
    by code_simp
  note run = skip_upload_run[OF h1 h2]
  from run have "uploads (snd ?run) = uploads (exState exFiles)" by blast
  then have up: "uploads (snd ?run) = []" by (simp add: exState_fields)
  from run unset have rh: "releaseHash (ctx (snd ?run)) = None" by simp
  from run unset none have rr: "releaseRecord (snd ?run) = Map.empty" by simp
  show ?thesis
    by (intro conjI h1 unset none ok up rh rr bs ls)
qed

text \<open>
  For comparison, the same run with the upload made: the content address that the store
  returned is in the release record of the version.
\<close>

lemma upload_run_records:
  "fst (runBuildAndUpload (exEnv exManifest) exOptions (exState exFiles)) = None
   \<and> releaseHash (ctx (snd (runBuildAndUpload (exEnv exManifest) exOptions (exState exFiles))))
       = Some ''/ipfs/Qm''
   \<and> releaseRecord (snd (runBuildAndUpload (exEnv exManifest) exOptions (exState exFiles)))
         (''/p'', ''1.0.0'')
       = Some \<lparr>hash = ''/ipfs/Qm'', uploadedTo = ''dappnode''\<rparr>"
  by code_simp

subsection \<open>The image archives of a run\<close>

text \<open>
  Against C3 as stated: the sample package declares no architectures. Its one container
  build writes \<open>foo_1.0.0_linux-amd64.txz\<close>, not the legacy name. A file of the legacy name
  \<open>foo_1.0.0.tar.xz\<close> is in the build directory after a run that uploads to IPFS, next to
  the first; after a run that uploads to Swarm there is none.
\<close>

theorem no_architectures_legacy_name_counterexample:
  "architectures exManifest = None
   \<and> fst (runBuildAndUpload (exEnv exManifest) exOptions (exState exFiles)) = None
   \<and> map destPath (builds (snd (runBuildAndUpload (exEnv exManifest) exOptions (exState exFiles))))
       = [''/b/foo_1.0.0_linux-amd64.txz'']
   \<and> readdirSync (files (snd (runBuildAndUpload (exEnv exManifest) exOptions (exState exFiles))))
         ''/b''
       = [''avatar.png'', ''docker-compose.yml'', ''dappnode_package.json'',
          ''foo_1.0.0_linux-amd64.txz'', ''foo_1.0.0.tar.xz'']
   \<and> fst (runBuildAndUpload (exEnv exManifest) (exOptions\<lparr>uploadToSwarm := True\<rparr>)
            (exState exFiles)) = None
   \<and> readdirSync (files (snd (runBuildAndUpload (exEnv exManifest)
          (exOptions\<lparr>uploadToSwarm := True\<rparr>) (exState exFiles)))) ''/b''
       = [''avatar.png'', ''docker-compose.yml'', ''dappnode_package.json'',
          ''foo_1.0.0_linux-amd64.txz'']"
  by code_simp

text \<open>
  C3, amended. When the manifest declares no architectures, a run that completes has
  made exactly one container build, the one of buildWithCompose (no architecture
  given), and that build has left its archive at the build directory joined with
  \<open>name_version_linux-amd64.txz\<close>, where it still is at the end. When the run uploads to
  IPFS (and the upload is not skipped) the legacy path \<open>name_version.tar.xz\<close> then holds
  a copy of that archive; when it uploads to Swarm, or skips the upload, there is no
  file at the legacy path at the end, nor anything else (for a name and a version
  without a slash).
\<close>

theorem no_architectures_single_build:
  assumes "readManifest e (dir opts) = Inr m"
      and "architectures m = None"
      and "buildAndUpload_locals e opts = Inr l"
      and "runBuildAndUpload e opts s = (None, s')"
  shows "builds s' = builds s @ [composeBuildArgs opts l]
         \<and> architecture (composeBuildArgs opts l) = None
         \<and> destPath (composeBuildArgs opts l) =
             path_join (buildDir opts) (name m @ ''_'' @ version m @ ''_linux-amd64.txz'')
         \<and> isFile (files s') (destPath (composeBuildArgs opts l))
         \<and> (\<not> uploadToSwarm opts \<and> \<not> truthyFlag (skipUpload opts) \<longrightarrow>
              map_of (files s') (path_join (buildDir opts) (name m @ ''_'' @ version m @ ''.tar.xz''))
                = map_of (files s') (destPath (composeBuildArgs opts l)))
         \<and> (CHR ''/'' \<notin> set (name m) \<and> CHR ''/'' \<notin> set (version m)
              \<and> (uploadToSwarm opts \<or> truthyFlag (skipUpload opts)) \<longrightarrow>
              map_of (files s')
                  (path_join (buildDir opts) (name m @ ''_'' @ version m @ ''.tar.xz'')) = None)"
proof -
  from locals_manifest[OF assms(3)] assms(1,2)
  have archs: "architectures' l = None"
    and amd: "imagePathAmd l = path_join (buildDir opts) (getImagePath (name m) (version m) ''linux/amd64'')"
    and leg: "imagePathLegacy l = path_join (buildDir opts) (getLegacyImagePath (name m) (version m))"
    by auto
  from archs have exp: "expectedBuilds opts l = [composeBuildArgs opts l]"
    by (simp add: expectedBuilds_def)
  have dp: "destPath (composeBuildArgs opts l) = imagePathAmd l"
    by (simp add: composeBuildArgs_def)
  have nmx: "getImagePath (name m) (version m) ''linux/amd64'' = name m @ ''_'' @ version m @ ''_linux-amd64.txz''"
    by (simp add: getImagePath_def getArchTag_def)
  have lgx: "getLegacyImagePath (name m) (version m) = name m @ ''_'' @ version m @ ''.tar.xz''"
    by (simp add: getLegacyImagePath_def)
  note main = run_success_builds[OF assms(3,4)]
  have copy: "map_of (files s') (imagePathLegacy l) = map_of (files s') (imagePathAmd l)"
    if up: "\<not> uploadToSwarm opts" "\<not> truthyFlag (skipUpload opts)"
  proof -
    from assms(3,4) obtain s4 where pre: "runListr (tasksBeforeSave e opts l) s = (None, s4)"
      and save: "saveUploadResults e opts l s4 = (None, s')"
      unfolding run_success by auto
    from before_save_success[OF pre] obtain s1 s2 s3
      where c: "runListr (buildTasks e opts l) s2 = (None, s3)"
        and d: "runListr [uploadTask e opts l] s3 = (None, s4)"
      by blast
    from runBuilds[OF c] exp dp have "isFile (files s3) (imagePathAmd l)" by simp
    then have ex3: "existsSync (files s3) (imagePathAmd l)" by (simp add: existsSync_def)
    from d up have task: "uploadToIpfsTask e opts l s3 = (None, s4)"
      by (auto simp: uploadTask_def split: option.splits prod.splits)
    have f4: "map_of (files s4) =
                (map_of (files s3))(imagePathLegacy l := map_of (files s3) (imagePathAmd l))"
    proof (cases "copyFileSync (files s3) (imagePathAmd l) (imagePathLegacy l)")
      case (Inl err)
      from uploadToIpfsTask_copy_fails[OF ex3 Inl, of e opts] task show ?thesis by simp
    next
      case (Inr F)
      from uploadToIpfsTask_copied[OF ex3 Inr, of e opts] task
      have "ipfsUpload e opts (s3\<lparr>files := F\<rparr>) = (None, s4)" by simp
      with ipfsUpload_files[of e opts "s3\<lparr>files := F\<rparr>"] have "files s4 = F" by simp
      with copyFileSync_map(1)[OF Inr] show ?thesis by simp
    qed
    from save saveUploadResults_frame(1)[of e opts l s4] have "files s' = files s4" by simp
    with f4 show ?thesis by simp
  qed
  have none: "map_of (files s')
                (path_join (buildDir opts) (getLegacyImagePath (name m) (version m))) = None"
    if "CHR ''/'' \<notin> set (name m)" "CHR ''/'' \<notin> set (version m)"
      and "uploadToSwarm opts \<or> truthyFlag (skipUpload opts)"
    using legacy_absent_without_ipfs[OF assms(3,4,1) that] .
  from main exp dp amd leg nmx lgx copy none show ?thesis
    by (auto simp: composeBuildArgs_def)
qed


theorem no_architectures_single_build_witness:
  "readManifest (exEnv exManifest) (dir exOptions) = Inr exManifest
   \<and> architectures exManifest = None
   \<and> buildAndUpload_locals (exEnv exManifest) exOptions = Inr exLocals
   \<and> fst (runBuildAndUpload (exEnv exManifest) exOptions (exState exFiles)) = None
   \<and> builds (snd (runBuildAndUpload (exEnv exManifest) exOptions (exState exFiles)))
       = [composeBuildArgs exOptions exLocals]
   \<and> destPath (composeBuildArgs exOptions exLocals) = ''/b/foo_1.0.0_linux-amd64.txz''
   \<and> map_of (files (snd (runBuildAndUpload (exEnv exManifest) exOptions (exState exFiles))))
        ''/b/foo_1.0.0.tar.xz''
       = map_of (files (snd (runBuildAndUpload (exEnv exManifest) exOptions (exState exFiles))))
           ''/b/foo_1.0.0_linux-amd64.txz''
   \<and> CHR ''/'' \<notin> set (name exManifest) \<and> CHR ''/'' \<notin> set (version exManifest)
   \<and> isFile (files (exState exFilesStale)) ''/b/foo_1.0.0.tar.xz''
   \<and> fst (runBuildAndUpload (exEnv exManifest) (exOptions\<lparr>uploadToSwarm := True\<rparr>)
            (exState exFilesStale)) = None
   \<and> map_of (files (snd (runBuildAndUpload (exEnv exManifest)
                            (exOptions\<lparr>uploadToSwarm := True\<rparr>) (exState exFilesStale))))
          ''/b/foo_1.0.0.tar.xz'' = None"
proof -
  let ?run = "runBuildAndUpload (exEnv exManifest) exOptions (exState exFiles)"
  let ?o = "exOptions\<lparr>uploadToSwarm := True\<rparr>"
  let ?swarm = "runBuildAndUpload (exEnv exManifest) ?o (exState exFilesStale)"
  have h1: "readManifest (exEnv exManifest) (dir exOptions) = Inr exManifest"
    and h1': "readManifest (exEnv exManifest) (dir ?o) = Inr exManifest"
    by (simp_all add: exEnv_fields)
  have h2: "architectures exManifest = None" by (simp add: exManifest_def)
  have ok: "fst ?run = None" by code_simp
  then have h4: "?run = (None, snd ?run)" by (metis prod.collapse)
  have ok': "fst ?swarm = None" by code_simp
  then have h4': "?swarm = (None, snd ?swarm)" by (metis prod.collapse)
  have p1: "path_join (buildDir exOptions) (name exManifest @ ''_'' @ version exManifest @ ''_linux-amd64.txz'')
              = ''/b/foo_1.0.0_linux-amd64.txz''"
    and p2: "path_join (buildDir exOptions) (name exManifest @ ''_'' @ version exManifest @ ''.tar.xz'')
              = ''/b/foo_1.0.0.tar.xz''"
    and p2': "path_join (buildDir ?o) (name exManifest @ ''_'' @ version exManifest @ ''.tar.xz'')
              = ''/b/foo_1.0.0.tar.xz''"
    by code_simp+
  have n: "CHR ''/'' \<notin> set (name exManifest)" "CHR ''/'' \<notin> set (version exManifest)"
    by (simp_all add: exManifest_def)
  have before: "isFile (files (exState exFilesStale)) ''/b/foo_1.0.0.tar.xz''"
    by code_simp
  have sw: "uploadToSwarm ?o" by simp
  from no_architectures_single_build[OF h1' h2 exLocals_swarm_eq h4'] n sw p2'
  have gone: "map_of (files (snd ?swarm)) ''/b/foo_1.0.0.tar.xz'' = None" by simp
  from no_architectures_single_build[OF h1 h2 exLocals_eq h4] h1 h2 exLocals_eq ok p1 p2
    n before ok' gone
  show ?thesis
    by (simp add: exState_fields exOptions_def truthyFlag_def)
qed

text \<open>
  C7. When the manifest declares architectures and parseArchitectures returns the list
  \<open>archs\<close> for them, a run that completes has made exactly the container builds of
  \<open>archs\<close>, one for each element and in that order, so as many as \<open>archs\<close> is long and none
  for an architecture outside it. The build of \<open>arch\<close> has left its archive at the build
  directory joined with \<open>name_version_tag.txz\<close>, \<open>tag\<close> being \<open>arch\<close> with each slash turned
  into a dash, and the file is there at the end of the run. Architectures with different
  tags have different files: as many archives as architectures. And the build directory
  ends with no archive under the name of any other architecture, nor anything else
  under such a name, whatever it held before (for a name and a version without a slash,
  so that the archives are files of the build directory itself).
\<close>

theorem declared_architectures_archives:
  assumes "readManifest e (dir opts) = Inr m"
      and "architectures m = Some declared"
      and "parseArchitectures e declared = Inr archs"
      and "buildAndUpload_locals e opts = Inr l"
      and "runBuildAndUpload e opts s = (None, s')"
  shows "builds s' = builds s @ map (architectureBuildArgs opts l) archs
         \<and> (\<forall>arch \<in> set archs.
               architecture (architectureBuildArgs opts l arch) = Some arch
               \<and> destPath (architectureBuildArgs opts l arch) =
                   path_join (buildDir opts)
                     (name m @ ''_'' @ version m @ ''_''
                        @ map (\<lambda>c. if c = CHR ''/'' then CHR ''-'' else c) arch @ ''.txz'')
               \<and> isFile (files s') (destPath (architectureBuildArgs opts l arch)))
         \<and> (distinct (map getArchTag archs) \<longrightarrow>
               distinct (map (\<lambda>arch. destPath (architectureBuildArgs opts l arch)) archs))
         \<and> (CHR ''/'' \<notin> set (name m) \<and> CHR ''/'' \<notin> set (version m) \<longrightarrow>
               (\<forall>b. getArchTag b \<notin> getArchTag ` set archs \<longrightarrow>
                  map_of (files s')
                      (path_join (buildDir opts) (getImagePath (name m) (version m) b)) = None))"
proof -
  from locals_manifest[OF assms(4)] assms(1-3)
  have archs: "architectures' l = Some archs"
    and nm: "name (manifest l) = name m" "version (manifest l) = version m"
    by (auto simp: injectUpstreamVersion_def Let_def)
  from archs have "expectedBuilds opts l = map (architectureBuildArgs opts l) archs"
    by (simp add: expectedBuilds_def)
  with run_success_builds[OF assms(4,5)] nm
  have main: "builds s' = builds s @ map (architectureBuildArgs opts l) archs
         \<and> (\<forall>arch \<in> set archs.
               architecture (architectureBuildArgs opts l arch) = Some arch
               \<and> destPath (architectureBuildArgs opts l arch) =
                   path_join (buildDir opts)
                     (name m @ ''_'' @ version m @ ''_''
                        @ map (\<lambda>c. if c = CHR ''/'' then CHR ''-'' else c) arch @ ''.txz'')
               \<and> isFile (files s') (destPath (architectureBuildArgs opts l arch)))"
    by (auto simp: architectureBuildArgs_def getImagePath_def getArchTag_def)
  have "distinct (map (\<lambda>arch. destPath (architectureBuildArgs opts l arch)) archs)"
    if "distinct (map getArchTag archs)"
    using that
    by (rule distinct_map_transfer)
       (simp add: architectureBuildArgs_def image_paths_distinct)
  moreover have "map_of (files s')
                      (path_join (buildDir opts) (getImagePath (name m) (version m) b)) = None"
    if "CHR ''/'' \<notin> set (name m)" "CHR ''/'' \<notin> set (version m)"
      and "getArchTag b \<notin> getArchTag ` set archs" for b
    using stale_archive_absent[OF assms(4,5,1) archs that] .
  ultimately show ?thesis using main by blast
qed

theorem declared_architectures_archives_witness:
  "readManifest (exEnv exManifestArchs) (dir exOptions) = Inr exManifestArchs
   \<and> architectures exManifestArchs = Some [''linux/amd64'', ''linux/arm64'']
   \<and> parseArchitectures (exEnv exManifestArchs) [''linux/amd64'', ''linux/arm64'']
       = Inr [''linux/amd64'', ''linux/arm64'']
   \<and> buildAndUpload_locals (exEnv exManifestArchs) exOptions = Inr exLocalsArchs
   \<and> fst (runBuildAndUpload (exEnv exManifestArchs) exOptions (exState exFilesStale)) = None
   \<and> builds (snd (runBuildAndUpload (exEnv exManifestArchs) exOptions (exState exFilesStale)))
       = [architectureBuildArgs exOptions exLocalsArchs ''linux/amd64'',
          architectureBuildArgs exOptions exLocalsArchs ''linux/arm64'']
   \<and> isFile (files (snd (runBuildAndUpload (exEnv exManifestArchs) exOptions
                           (exState exFilesStale))))
        (destPath (architectureBuildArgs exOptions exLocalsArchs ''linux/amd64''))
   \<and> isFile (files (snd (runBuildAndUpload (exEnv exManifestArchs) exOptions
                           (exState exFilesStale))))
        (destPath (architectureBuildArgs exOptions exLocalsArchs ''linux/arm64''))
   \<and> distinct (map getArchTag [''linux/amd64'', ''linux/arm64''])
   \<and> destPath (architectureBuildArgs exOptions exLocalsArchs ''linux/amd64'')
       \<noteq> destPath (architectureBuildArgs exOptions exLocalsArchs ''linux/arm64'')
   \<and> CHR ''/'' \<notin> set (name exManifestArchs) \<and> CHR ''/'' \<notin> set (version exManifestArchs)
   \<and> getArchTag ''linux/riscv64'' \<notin> getArchTag ` set [''linux/amd64'', ''linux/arm64'']
   \<and> isFile (files (exState exFilesStale)) ''/b/foo_1.0.0_linux-riscv64.txz''
   \<and> path_join (buildDir exOptions)
         (getImagePath (name exManifestArchs) (version exManifestArchs) ''linux/riscv64'')
       = ''/b/foo_1.0.0_linux-riscv64.txz''
   \<and> map_of (files (snd (runBuildAndUpload (exEnv exManifestArchs) exOptions
                            (exState exFilesStale))))
          ''/b/foo_1.0.0_linux-riscv64.txz'' = None"
proof -
  let ?run = "runBuildAndUpload (exEnv exManifestArchs) exOptions (exState exFilesStale)"
  have h1: "readManifest (exEnv exManifestArchs) (dir exOptions) = Inr exManifestArchs"
    by (simp add: exEnv_fields)
  have h2: "architectures exManifestArchs = Some [''linux/amd64'', ''linux/arm64'']"
    by (simp add: exManifestArchs_def)
  have h3: "parseArchitectures (exEnv exManifestArchs) [''linux/amd64'', ''linux/arm64'']
              = Inr [''linux/amd64'', ''linux/arm64'']"
    by (simp add: exEnv_fields)
  have ok: "fst ?run = None" by code_simp
  then have h5: "?run = (None, snd ?run)" by (metis prod.collapse)
  have d: "distinct (map getArchTag [''linux/amd64'', ''linux/arm64''])"
    by (simp add: getArchTag_def)
  have n: "CHR ''/'' \<notin> set (name exManifestArchs)" "CHR ''/'' \<notin> set (version exManifestArchs)"
    by (simp_all add: exManifestArchs_def exManifest_def)
  have u: "getArchTag ''linux/riscv64'' \<notin> getArchTag ` set [''linux/amd64'', ''linux/arm64'']"
    by (simp add: getArchTag_def)
  have before: "isFile (files (exState exFilesStale)) ''/b/foo_1.0.0_linux-riscv64.txz''"
    by code_simp
  have p: "path_join (buildDir exOptions)
             (getImagePath (name exManifestArchs) (version exManifestArchs) ''linux/riscv64'')
           = ''/b/foo_1.0.0_linux-riscv64.txz''"
    by code_simp
  from declared_architectures_archives[OF h1 h2 h3 exLocalsArchs_eq h5]
    h1 h2 h3 exLocalsArchs_eq ok d n u before p
  show ?thesis by (auto simp: exState_fields)
qed

end
